theory Spec2Isabelle
  imports Main "HOL-Library.Word"
begin

section \<open>The pushgateway process: an embedding of main.go\<close>

text \<open>
  The repository's visible code is \<^verbatim>\<open>main.go\<close>: the command-line flags, the table of the
  process's own metrics, the HTTP routes, and the start-up and shutdown sequence of the
  process. The packages \<^verbatim>\<open>storage\<close> and \<^verbatim>\<open>handler\<close> it calls are not part of the visible
  code; where a definition below stands for one of their functions it says so.

  Conventions. A Go \<^verbatim>\<open>error\<close> is its message, a \<^verbatim>\<open>string\<close>; a nil error is \<open>None\<close>.
  A \<^verbatim>\<open>time.Duration\<close> is a number of nanoseconds. Go's \<^verbatim>\<open>float64\<close> is a type parameter
  \<open>'f\<close>, and the conversion \<^verbatim>\<open>float64(x)\<close> of an integer is a parameter \<open>f64\<close> of the
  functions that use it: nothing below depends on how floating point rounds.
\<close>

subsection \<open>Command-line flags (lines 22-25, 81)\<close>

type_synonym Duration = int

definition Second :: Duration where
  "Second = 1000000000"

definition Minute :: Duration where
  "Minute = 60 * Second"

text \<open>The value held by a flag: \<^verbatim>\<open>flag.String\<close> makes a string flag, \<^verbatim>\<open>flag.Duration\<close> a
  duration flag.\<close>

datatype flag_value = StringValue string | DurationValue Duration

text \<open>Go's \<^verbatim>\<open>flag.Flag\<close>: name, usage message, current value, default value.\<close>

record Flag =
  Name :: string
  Usage :: string
  Value :: flag_value
  DefValue :: flag_value

type_synonym FlagSet = "Flag list"

definition flag_String :: "string \<Rightarrow> string \<Rightarrow> string \<Rightarrow> FlagSet \<Rightarrow> FlagSet" where
  "flag_String n v u fs =
     fs @ [\<lparr>Name = n, Usage = u, Value = StringValue v, DefValue = StringValue v\<rparr>]"

definition flag_Duration :: "string \<Rightarrow> Duration \<Rightarrow> string \<Rightarrow> FlagSet \<Rightarrow> FlagSet" where
  "flag_Duration n v u fs =
     fs @ [\<lparr>Name = n, Usage = u, Value = DurationValue v, DefValue = DurationValue v\<rparr>]"

text \<open>The flag set after the package-level \<^verbatim>\<open>var\<close> block of main.go has run, in the order of
  the source. Flags that an imported package may register on its own are no part of
  main.go and are left out.\<close>

definition CommandLine :: FlagSet where
  "CommandLine =
     flag_Duration ''persistence.duration'' (5 * Minute)
         ''Do not write the persistence file more often than that.''
       (flag_String ''persistence.file'' ''''
           ''File to persist metrics. If empty, metrics are only kept in memory.''
         (flag_String ''addr'' '':8080'' ''Address to listen on.'' []))"

definition Lookup :: "FlagSet \<Rightarrow> string \<Rightarrow> Flag option" where
  "Lookup fs n = find (\<lambda>f. Name f = n) fs"

datatype flag_error =
    NotDefined string
  | InvalidValue string string

text \<open>
  Setting one flag from the command line. A name that was never defined is an error; a
  string flag takes any text; a duration flag takes what \<^verbatim>\<open>time.ParseDuration\<close> accepts,
  here the parameter \<open>pd\<close>.
\<close>

definition flag_Set ::
  "(string \<Rightarrow> Duration option) \<Rightarrow> FlagSet \<Rightarrow> string \<Rightarrow> string \<Rightarrow> flag_error + FlagSet" where
  "flag_Set pd fs n v =
     (case Lookup fs n of
        None \<Rightarrow> Inl (NotDefined n)
      | Some f \<Rightarrow>
          (case Value f of
             StringValue _ \<Rightarrow>
               Inr (map (\<lambda>g. if Name g = n then g\<lparr>Value := StringValue v\<rparr> else g) fs)
           | DurationValue _ \<Rightarrow>
               (case pd v of
                  None \<Rightarrow> Inl (InvalidValue v n)
                | Some d \<Rightarrow>
                    Inr (map (\<lambda>g. if Name g = n then g\<lparr>Value := DurationValue d\<rparr> else g) fs))))"

text \<open>
  \<^verbatim>\<open>flag.Parse()\<close> over the options of the command line, each already split into its name
  and its value, from left to right. The first error stops the parse (the process then
  exits with status 2, see \<open>main_step\<close>).
\<close>

fun flag_Parse ::
  "(string \<Rightarrow> Duration option) \<Rightarrow> FlagSet \<Rightarrow> (string \<times> string) list \<Rightarrow> flag_error + FlagSet" where
  "flag_Parse pd fs [] = Inr fs"
| "flag_Parse pd fs ((n, v) # opts) =
     (case flag_Set pd fs n v of
        Inl e \<Rightarrow> Inl e
      | Inr fs' \<Rightarrow> flag_Parse pd fs' opts)"

text \<open>The three variables of main.go, read through their pointers (\<^verbatim>\<open>*addr\<close> and so on).
  The fall-through branches stand for a flag of the wrong kind or a missing flag, which
  the flag set of main.go never has.\<close>

definition string_of :: "FlagSet \<Rightarrow> string \<Rightarrow> string" where
  "string_of fs n =
     (case Lookup fs n of
        Some f \<Rightarrow> (case Value f of StringValue s \<Rightarrow> s | DurationValue _ \<Rightarrow> '''')
      | None \<Rightarrow> '''')"

definition duration_of :: "FlagSet \<Rightarrow> string \<Rightarrow> Duration" where
  "duration_of fs n =
     (case Lookup fs n of
        Some f \<Rightarrow> (case Value f of DurationValue d \<Rightarrow> d | StringValue _ \<Rightarrow> 0)
      | None \<Rightarrow> 0)"

definition addr :: "FlagSet \<Rightarrow> string" where
  "addr fs = string_of fs ''addr''"

definition persistenceFile :: "FlagSet \<Rightarrow> string" where
  "persistenceFile fs = string_of fs ''persistence.file''"

definition persistenceDuration :: "FlagSet \<Rightarrow> Duration" where
  "persistenceDuration fs = duration_of fs ''persistence.duration''"

subsection \<open>The process's own metrics (lines 27-77, 133-151)\<close>

text \<open>\<^verbatim>\<open>runtime.MemStats\<close>, the fields main.go reads.\<close>

record MemStats =
  Alloc :: "64 word"
  TotalAlloc :: "64 word"
  HeapAlloc :: "64 word"
  NextGC :: "64 word"
  PauseTotalNs :: "64 word"
  NumGC :: "32 word"

text \<open>What the Go runtime reports at one moment: \<^verbatim>\<open>runtime.NumGoroutine()\<close> and the
  statistics \<^verbatim>\<open>runtime.ReadMemStats\<close> would store.\<close>

record runtime =
  NumGoroutine :: int
  ReadMemStats :: MemStats

text \<open>
  A \<^verbatim>\<open>prometheus.Metric\<close> object. \<^verbatim>\<open>NewGauge()\<close> and \<^verbatim>\<open>NewCounter()\<close> make a gauge and a
  counter with no value; \<^verbatim>\<open>Set(nil, v)\<close> stores \<open>v\<close> for the empty label set. \<open>OtherMetric\<close>
  is any metric that is neither (the \<^verbatim>\<open>default\<close> branch of the type switch).
\<close>

datatype 'f Metric = Gauge "'f option" | Counter "'f option" | OtherMetric

type_synonym ref = nat

text \<open>One element of \<^verbatim>\<open>internalMetrics\<close>. The slice holds pointers and the registry is given
  the same metric objects, so the field \<open>im_metric\<close> is a reference into a store of metric
  objects.\<close>

record 'f internal_metric =
  im_name :: string
  im_help :: string
  im_eval :: "runtime \<Rightarrow> MemStats \<Rightarrow> 'f"
  im_metric :: ref

definition internalMetrics :: "(int \<Rightarrow> 'f) \<Rightarrow> 'f internal_metric list" where
  "internalMetrics f64 =
     [\<lparr>im_name = ''instance_goroutine_count'',
       im_help = ''The number of goroutines that currently exist.'',
       im_eval = (\<lambda>rt m. f64 (NumGoroutine rt)),
       im_metric = 0\<rparr>,
      \<lparr>im_name = ''instance_allocated_bytes'',
       im_help = ''Bytes allocated and still in use.'',
       im_eval = (\<lambda>rt m. f64 (uint (Alloc m))),
       im_metric = 1\<rparr>,
      \<lparr>im_name = ''instance_total_allocated_bytes'',
       im_help = ''Bytes allocated (even if freed).'',
       im_eval = (\<lambda>rt m. f64 (uint (TotalAlloc m))),
       im_metric = 2\<rparr>,
      \<lparr>im_name = ''instance_heap_allocated_bytes'',
       im_help = ''Heap bytes allocated and still in use.'',
       im_eval = (\<lambda>rt m. f64 (uint (HeapAlloc m))),
       im_metric = 3\<rparr>,
      \<lparr>im_name = ''instance_gc_high_watermark_bytes'',
       im_help = ''Next run in HeapAlloc time (bytes).'',
       im_eval = (\<lambda>rt m. f64 (uint (NextGC m))),
       im_metric = 4\<rparr>,
      \<lparr>im_name = ''instance_gc_total_pause_ns'',
       im_help = ''Total GC paise time.'',
       im_eval = (\<lambda>rt m. f64 (uint (PauseTotalNs m))),
       im_metric = 5\<rparr>,
      \<lparr>im_name = ''instance_gc_count'',
       im_help = ''GC count.'',
       im_eval = (\<lambda>rt m. f64 (uint (NumGC m))),
       im_metric = 6\<rparr>]"

text \<open>The metric objects the initialiser of \<^verbatim>\<open>internalMetrics\<close> allocates: six gauges and,
  for \<^verbatim>\<open>instance_gc_count\<close>, a counter.\<close>

definition initial_objects :: "ref \<rightharpoonup> 'f Metric" where
  "initial_objects =
     [0 \<mapsto> Gauge None, 1 \<mapsto> Gauge None, 2 \<mapsto> Gauge None, 3 \<mapsto> Gauge None,
      4 \<mapsto> Gauge None, 5 \<mapsto> Gauge None, 6 \<mapsto> Counter None]"

text \<open>
  The mutable state the handlers of main.go share: the global \<^verbatim>\<open>memStats\<close>, the metric
  objects, the default registry of the client library (what was registered, and the
  injection hook), the metric store \<^verbatim>\<open>ms\<close> of type \<open>'ms\<close>, and what \<^verbatim>\<open>log.Print\<close> was given
  (a text and the metric value printed after it).
  \<open>'mf\<close> is the type of the metric families the store hands to the registry.
\<close>

record ('f, 'ms, 'mf) globals =
  memStats :: MemStats
  objects :: "ref \<rightharpoonup> 'f Metric"
  registered :: "(string \<times> string \<times> ref) list"
  injectionHook :: "('ms \<Rightarrow> 'mf list) option"
  ms :: 'ms
  logged :: "(string \<times> 'f Metric option) list"

definition zero_MemStats :: MemStats where
  "zero_MemStats =
     \<lparr>Alloc = 0, TotalAlloc = 0, HeapAlloc = 0, NextGC = 0, PauseTotalNs = 0, NumGC = 0\<rparr>"

text \<open>\<^verbatim>\<open>prometheus.Register(name, help, nil, metric)\<close>: a name that is already registered is
  refused; main.go ignores the error.\<close>

definition Register ::
  "string \<Rightarrow> string \<Rightarrow> ref \<Rightarrow> ('f, 'ms, 'mf) globals \<Rightarrow> ('f, 'ms, 'mf) globals" where
  "Register n h r g =
     (if n \<in> fst ` set (registered g) then g
      else g\<lparr>registered := registered g @ [(n, h, r)]\<rparr>)"

definition registerInternalMetrics ::
  "(int \<Rightarrow> 'f) \<Rightarrow> ('f, 'ms, 'mf) globals \<Rightarrow> ('f, 'ms, 'mf) globals" where
  "registerInternalMetrics f64 g =
     foldl (\<lambda>g im. Register (im_name im) (im_help im) (im_metric im) g) g (internalMetrics f64)"

text \<open>One turn of the loop of \<^verbatim>\<open>updateInternalMetrics\<close>: the type switch on the metric
  object.\<close>

definition update_metric ::
  "runtime \<Rightarrow> ('f, 'ms, 'mf) globals \<Rightarrow> 'f internal_metric \<Rightarrow> ('f, 'ms, 'mf) globals" where
  "update_metric rt g im =
     (case objects g (im_metric im) of
        Some (Gauge _) \<Rightarrow>
          g\<lparr>objects := (objects g)(im_metric im \<mapsto> Gauge (Some (im_eval im rt (memStats g))))\<rparr>
      | Some (Counter _) \<Rightarrow>
          g\<lparr>objects := (objects g)(im_metric im \<mapsto> Counter (Some (im_eval im rt (memStats g))))\<rparr>
      | m \<Rightarrow> g\<lparr>logged := logged g @ [(''Unexpected metric type: '', m)]\<rparr>)"

definition updateInternalMetrics ::
  "(int \<Rightarrow> 'f) \<Rightarrow> runtime \<Rightarrow> ('f, 'ms, 'mf) globals \<Rightarrow> ('f, 'ms, 'mf) globals" where
  "updateInternalMetrics f64 rt g =
     foldl (update_metric rt) (g\<lparr>memStats := ReadMemStats rt\<rparr>) (internalMetrics f64)"

text \<open>
  What \<^verbatim>\<open>prometheus.DefaultHandler\<close> renders: every registered metric with the current state
  of its object, and the families the injection hook returns. The text encoding of the
  two is the client library's and is not modelled.
\<close>

record ('f, 'mf) exposition =
  own_metrics :: "(string \<times> string \<times> 'f Metric option) list"
  injected :: "'mf list"

definition DefaultHandler :: "('f, 'ms, 'mf) globals \<Rightarrow> ('f, 'mf) exposition" where
  "DefaultHandler g =
     \<lparr>own_metrics = map (\<lambda>(n, h, r). (n, h, objects g r)) (registered g),
      injected = (case injectionHook g of None \<Rightarrow> [] | Some hook \<Rightarrow> hook (ms g))\<rparr>"

text \<open>The handler of \<^verbatim>\<open>GET /metrics\<close> (lines 92-96).\<close>

definition metrics_handler ::
  "(int \<Rightarrow> 'f) \<Rightarrow> runtime \<Rightarrow> ('f, 'ms, 'mf) globals \<Rightarrow>
     ('f, 'ms, 'mf) globals \<times> ('f, 'mf) exposition" where
  "metrics_handler f64 rt g =
     (let g' = updateInternalMetrics f64 rt g in (g', DefaultHandler g'))"

subsection \<open>The routes (lines 82, 92-106)\<close>

text \<open>
  The three handlers main.go builds: the function literal of lines 93-96, and the values
  of \<^verbatim>\<open>handler.Push(ms)\<close> and \<^verbatim>\<open>handler.Delete(ms)\<close>.
\<close>

datatype handler = metrics_func | handler_Push | handler_Delete

text \<open>
  The multiplexer of package \<^verbatim>\<open>pat\<close>: for every method the patterns registered for it, in
  the order of registration. It is kept as one list of (method, pattern, handler).
\<close>

type_synonym PatternServeMux = "(string \<times> string \<times> handler) list"

definition pat_New :: PatternServeMux where
  "pat_New = []"

definition Add :: "string \<Rightarrow> string \<Rightarrow> handler \<Rightarrow> PatternServeMux \<Rightarrow> PatternServeMux" where
  "Add meth pat h m = m @ [(meth, pat, h)]"

text \<open>\<^verbatim>\<open>Get\<close> of package \<^verbatim>\<open>pat\<close> registers the pattern for HEAD requests as well.\<close>

definition Get :: "string \<Rightarrow> handler \<Rightarrow> PatternServeMux \<Rightarrow> PatternServeMux" where
  "Get pat h m = Add ''GET'' pat h (Add ''HEAD'' pat h m)"

definition Put :: "string \<Rightarrow> handler \<Rightarrow> PatternServeMux \<Rightarrow> PatternServeMux" where
  "Put = Add ''PUT''"

definition Post :: "string \<Rightarrow> handler \<Rightarrow> PatternServeMux \<Rightarrow> PatternServeMux" where
  "Post = Add ''POST''"

definition Del :: "string \<Rightarrow> handler \<Rightarrow> PatternServeMux \<Rightarrow> PatternServeMux" where
  "Del = Add ''DELETE''"

text \<open>The value of \<^verbatim>\<open>mux\<close> when main.go hands it to \<^verbatim>\<open>http.Handle("/", mux)\<close>.\<close>

definition mux :: PatternServeMux where
  "mux =
     (let m = pat_New;
          m = Get ''/metrics'' metrics_func m;
          m = Put ''/metrics/job/:job/instance/:instance'' handler_Push m;
          m = Post ''/metrics/job/:job/instance/:instance'' handler_Push m;
          m = Del ''/metrics/job/:job/instance/:instance'' handler_Delete m;
          m = Put ''/metrics/job/:job'' handler_Push m;
          m = Post ''/metrics/job/:job'' handler_Push m;
          m = Del ''/metrics/job/:job'' handler_Delete m
      in m)"

type_synonym params = "(string \<times> string) list"

text \<open>
  Dispatch of one request: the first pattern registered for the request's method that
  matches the path wins, and its handler is called with the parameters the match bound;
  with no match none of the handlers is called (\<open>None\<close>) and \<^verbatim>\<open>pat\<close> answers with an error
  status. The matcher of one pattern against one path
  belongs to package \<^verbatim>\<open>pat\<close>; it is the parameter \<open>matcher\<close>.
\<close>

fun ServeHTTP ::
  "(string \<Rightarrow> string \<Rightarrow> params option) \<Rightarrow> PatternServeMux \<Rightarrow> string \<Rightarrow> string \<Rightarrow>
     (handler \<times> params) option" where
  "ServeHTTP matcher [] meth path = None"
| "ServeHTTP matcher ((m, pat, h) # rest) meth path =
     (if m = meth then
        (case matcher pat path of
           Some ps \<Rightarrow> Some (h, ps)
         | None \<Rightarrow> ServeHTTP matcher rest meth path)
      else ServeHTTP matcher rest meth path)"

text \<open>
  A matcher in the manner of \<^verbatim>\<open>pat\<close>, used where a concrete request is evaluated: pattern
  and path are cut at every \<^verbatim>\<open>/\<close>; a pattern segment that starts with a colon binds the
  path segment at its place, unless the path ends there with nothing left to bind; any
  other segment must be equal to the path's. It does not unescape: the path of a request
  is taken to carry no percent-escapes, so that its escaped and unescaped forms are the
  same text.
\<close>

fun split_slash :: "string \<Rightarrow> string list" where
  "split_slash [] = [[]]"
| "split_slash (c # cs) =
     (if c = CHR ''/'' then [] # split_slash cs
      else (case split_slash cs of
              [] \<Rightarrow> [[c]]
            | seg # segs \<Rightarrow> (c # seg) # segs))"

fun match_segments :: "string list \<Rightarrow> string list \<Rightarrow> params option" where
  "match_segments [] [] = Some []"
| "match_segments (p # ps) (s # ss) =
     (case p of
        c # n \<Rightarrow>
          (if c = CHR '':'' then
             (if s = [] \<and> ss = [] then None
              else map_option (\<lambda>r. (p, s) # r) (match_segments ps ss))
           else if p = s then match_segments ps ss else None)
      | [] \<Rightarrow> (if s = [] then match_segments ps ss else None))"
| "match_segments _ _ = None"

definition segment_try :: "string \<Rightarrow> string \<Rightarrow> params option" where
  "segment_try pat path = match_segments (split_slash pat) (split_slash path)"

text \<open>
  main.go does not serve with \<^verbatim>\<open>mux\<close> directly: line 106 mounts it on the pattern \<^verbatim>\<open>/\<close> of
  \<^verbatim>\<open>http.DefaultServeMux\<close>, which the server of line 114 uses because its handler is nil,
  and the import of \<^verbatim>\<open>net/http/pprof\<close> (line 8) has registered its own patterns there
  before. The default multiplexer answers a request other than \<^verbatim>\<open>CONNECT\<close> whose path
  differs from its cleaned form with a redirect to the cleaned path, and calls no
  handler; a path at or under \<^verbatim>\<open>/debug/pprof\<close> belongs to the profiling handlers; every
  other request falls to \<^verbatim>\<open>/\<close>, that is to \<^verbatim>\<open>mux\<close>. The cleaning of a path is the
  library's; it is the parameter \<open>clean\<close>.
\<close>

definition pprof_path :: "string \<Rightarrow> bool" where
  "pprof_path path = (path = ''/debug/pprof'' \<or> take 13 path = ''/debug/pprof/'')"

definition reaches_mux :: "(string \<Rightarrow> string) \<Rightarrow> string \<Rightarrow> string \<Rightarrow> bool" where
  "reaches_mux clean meth path =
     ((meth = ''CONNECT'' \<or> clean path = path) \<and> \<not> pprof_path path)"

text \<open>
  The cleaning of \<^verbatim>\<open>net/http\<close>, used where a concrete request is evaluated: the path is made
  to start with a slash, empty and \<^verbatim>\<open>.\<close> segments are dropped, a \<^verbatim>\<open>..\<close> segment removes the
  segment before it, and a trailing slash is kept.
\<close>

fun clean_segments :: "string list \<Rightarrow> string list \<Rightarrow> string list" where
  "clean_segments acc [] = rev acc"
| "clean_segments acc (s # ss) =
     (if s = [] \<or> s = ''.'' then clean_segments acc ss
      else if s = ''..'' then clean_segments (tl acc) ss
      else clean_segments (s # acc) ss)"

fun join_slash :: "string list \<Rightarrow> string" where
  "join_slash [] = []"
| "join_slash [s] = s"
| "join_slash (s # t # ss) = s @ ''/'' @ join_slash (t # ss)"

definition cleanPath :: "string \<Rightarrow> string" where
  "cleanPath p =
     (if p = [] then ''/''
      else
        (let q = (if hd p = CHR ''/'' then p else ''/'' @ p);
             np = ''/'' @ join_slash (clean_segments [] (split_slash q))
         in if last q = CHR ''/'' \<and> np \<noteq> ''/'' then np @ ''/'' else np))"

text \<open>
  One request served by the process: the method, the path (without percent-escapes) and
  the body.
  \<open>push\<close> and \<open>del\<close> stand for what the handlers of package \<^verbatim>\<open>handler\<close> do with the store,
  given the parameters of the route and the body of the request; the handler of
  \<^verbatim>\<open>/metrics\<close> is the one of main.go. \<open>NoRoute\<close> is every answer that comes from the libraries
  without one of the three handlers being called: a redirect, a profiling page, or the
  error status of \<^verbatim>\<open>pat\<close>. For a \<^verbatim>\<open>HEAD\<close> request the server runs the handler and leaves out
  the body it renders.
\<close>

datatype ('f, 'mf, 'r) response =
    NoRoute
  | Scrape "('f, 'mf) exposition"
  | Pushed 'r
  | Deleted 'r

definition serve ::
  "(int \<Rightarrow> 'f) \<Rightarrow> (string \<Rightarrow> string) \<Rightarrow> (string \<Rightarrow> string \<Rightarrow> params option) \<Rightarrow>
   (params \<Rightarrow> 'b \<Rightarrow> 'ms \<Rightarrow> 'ms \<times> 'r) \<Rightarrow> (params \<Rightarrow> 'ms \<Rightarrow> 'ms \<times> 'r) \<Rightarrow>
   runtime \<Rightarrow> string \<Rightarrow> string \<Rightarrow> 'b \<Rightarrow> ('f, 'ms, 'mf) globals \<Rightarrow>
     ('f, 'ms, 'mf) globals \<times> ('f, 'mf, 'r) response" where
  "serve f64 clean matcher push del rt meth path body g =
     (if \<not> reaches_mux clean meth path then (g, NoRoute)
      else
        (case ServeHTTP matcher mux meth path of
           None \<Rightarrow> (g, NoRoute)
         | Some (h, ps) \<Rightarrow>
             (case h of
                metrics_func \<Rightarrow>
                  (let (g', out) = metrics_handler f64 rt g in (g', Scrape out))
              | handler_Push \<Rightarrow>
                  (let (s', r) = push ps body (ms g) in (g\<lparr>ms := s'\<rparr>, Pushed r))
              | handler_Delete \<Rightarrow>
                  (let (s', r) = del ps (ms g) in (g\<lparr>ms := s'\<rparr>, Deleted r)))))"

text \<open>
  The shared state when main.go starts to listen (lines 84-91): the store is the value of
  \<^verbatim>\<open>storage.NewDiskMetricStore(*persistenceFile, *persistenceDuration)\<close>, the hook of the
  registry is the store's \<^verbatim>\<open>GetMetricFamilies\<close>, and the process's own metrics are
  registered. Both functions of the store are parameters. The registry of the client
  library is taken to be empty when the process starts.
\<close>

definition startup ::
  "(int \<Rightarrow> 'f) \<Rightarrow> (string \<Rightarrow> Duration \<Rightarrow> 'ms) \<Rightarrow> ('ms \<Rightarrow> 'mf list) \<Rightarrow> FlagSet \<Rightarrow>
     ('f, 'ms, 'mf) globals" where
  "startup f64 new_store get_families fs =
     registerInternalMetrics f64
       \<lparr>memStats = zero_MemStats,
        objects = initial_objects,
        registered = [],
        injectionHook = Some get_families,
        ms = new_store (persistenceFile fs) (persistenceDuration fs),
        logged = []\<rparr>"

subsection \<open>Start-up and shutdown of the process (lines 80-131)\<close>

text \<open>
  The process has two threads of control: \<^verbatim>\<open>main\<close> and, once started, the goroutine
  \<^verbatim>\<open>interruptHandler\<close>. Each is a program counter over the statements of the source; a
  step of a thread runs one statement and appends what it did to the trace. A statement
  that blocks has no step until it can proceed: \<^verbatim>\<open>Serve\<close> returns once accepting on the
  listener fails, which in this model happens when the listener has been closed, and the
  receive \<^verbatim>\<open><-notifier\<close> returns when a signal is delivered. What the world outside the
  program decides is the environment of a run: the command line, whether \<^verbatim>\<open>net.Listen\<close>
  fails, the error \<^verbatim>\<open>Serve\<close> returns, and what \<^verbatim>\<open>ms.Shutdown()\<close> returns. The event
  \<open>ShutsDownStore r\<close> is the call of \<^verbatim>\<open>ms.Shutdown()\<close> together with its return of \<open>r\<close>; the
  call is synchronous, so whatever the store does in it, its final write included, is
  over when the event is in the trace.
\<close>

record environment =
  args :: "(string \<times> string) list"
  listen_error :: "string option"
  serve_error :: string
  shutdown_error :: "string option"

datatype event =
    Exits nat
  | Logs string
  | CreatesStore string Duration
  | Listens string "string option"
  | StartsHandler
  | Notifies
  | ReceivesSignal
  | ClosesListener
  | ServeReturns string
  | Sleeps Duration
  | ShutsDownStore "string option"

datatype main_pc =
    M_Parse
  | M_Setup
  | M_LogListening
  | M_Listen
  | M_Fatal string
  | M_Go
  | M_Serve
  | M_LogStopped
  | M_Sleep
  | M_Shutdown
  | M_LogProblem string
  | M_Return
  | M_Done

datatype handler_pc =
    H_NotStarted
  | H_Notify
  | H_Receive
  | H_Log
  | H_Close
  | H_Done

datatype listener_state = NoListener | Listening | Closed

record process =
  flags :: FlagSet
  main_at :: main_pc
  handler_at :: handler_pc
  listener :: listener_state
  exit_status :: "nat option"
  trace :: "event list"

definition initial :: process where
  "initial =
     \<lparr>flags = CommandLine, main_at = M_Parse, handler_at = H_NotStarted,
      listener = NoListener, exit_status = None, trace = []\<rparr>"

definition emit :: "event list \<Rightarrow> process \<Rightarrow> process" where
  "emit es s = s\<lparr>trace := trace s @ es\<rparr>"

definition exit_with :: "nat \<Rightarrow> process \<Rightarrow> process" where
  "exit_with n s = (emit [Exits n] s)\<lparr>main_at := M_Done, exit_status := Some n\<rparr>"

text \<open>One statement of \<^verbatim>\<open>main\<close>. \<^verbatim>\<open>flag.Parse\<close> ends the process with status 2 on an error;
  \<^verbatim>\<open>log.Fatal\<close> writes the error and ends it with status 1; the return of \<^verbatim>\<open>main\<close> ends it
  with status 0.\<close>

definition main_step ::
  "(string \<Rightarrow> Duration option) \<Rightarrow> environment \<Rightarrow> process \<Rightarrow> process option" where
  "main_step pd env s =
     (case main_at s of
        M_Parse \<Rightarrow>
          (case flag_Parse pd (flags s) (args env) of
             Inl e \<Rightarrow> Some (exit_with 2 s)
           | Inr fs \<Rightarrow> Some (s\<lparr>flags := fs, main_at := M_Setup\<rparr>))
      | M_Setup \<Rightarrow>
          Some ((emit [CreatesStore (persistenceFile (flags s)) (persistenceDuration (flags s))] s)
                  \<lparr>main_at := M_LogListening\<rparr>)
      | M_LogListening \<Rightarrow>
          Some ((emit [Logs (''Listening on '' @ addr (flags s) @ ''.'')] s)\<lparr>main_at := M_Listen\<rparr>)
      | M_Listen \<Rightarrow>
          (case listen_error env of
             None \<Rightarrow>
               Some ((emit [Listens (addr (flags s)) None] s)
                       \<lparr>main_at := M_Go, listener := Listening\<rparr>)
           | Some e \<Rightarrow>
               Some ((emit [Listens (addr (flags s)) (Some e)] s)\<lparr>main_at := M_Fatal e\<rparr>))
      | M_Fatal e \<Rightarrow> Some (exit_with 1 (emit [Logs e] s))
      | M_Go \<Rightarrow> Some ((emit [StartsHandler] s)\<lparr>main_at := M_Serve, handler_at := H_Notify\<rparr>)
      | M_Serve \<Rightarrow>
          (if listener s = Closed
           then Some ((emit [ServeReturns (serve_error env)] s)\<lparr>main_at := M_LogStopped\<rparr>)
           else None)
      | M_LogStopped \<Rightarrow>
          Some ((emit [Logs (''HTTP server stopped: '' @ serve_error env)] s)\<lparr>main_at := M_Sleep\<rparr>)
      | M_Sleep \<Rightarrow> Some ((emit [Sleeps Second] s)\<lparr>main_at := M_Shutdown\<rparr>)
      | M_Shutdown \<Rightarrow>
          Some ((emit [ShutsDownStore (shutdown_error env)] s)
                  \<lparr>main_at := (case shutdown_error env of
                                 None \<Rightarrow> M_Return
                               | Some e \<Rightarrow> M_LogProblem e)\<rparr>)
      | M_LogProblem e \<Rightarrow>
          Some ((emit [Logs (''Problem shutting down metric storage: '' @ e)] s)
                  \<lparr>main_at := M_Return\<rparr>)
      | M_Return \<Rightarrow> Some (exit_with 0 s)
      | M_Done \<Rightarrow> None)"

text \<open>One statement of \<^verbatim>\<open>interruptHandler\<close>; the receive is not a step of its own, it
  proceeds by \<open>deliver_signal\<close>.\<close>

definition handler_step :: "process \<Rightarrow> process option" where
  "handler_step s =
     (case handler_at s of
        H_NotStarted \<Rightarrow> None
      | H_Notify \<Rightarrow> Some ((emit [Notifies] s)\<lparr>handler_at := H_Receive\<rparr>)
      | H_Receive \<Rightarrow> None
      | H_Log \<Rightarrow>
          Some ((emit [Logs ''Received SIGINT/SIGTERM; exiting gracefully...''] s)
                  \<lparr>handler_at := H_Close\<rparr>)
      | H_Close \<Rightarrow> Some ((emit [ClosesListener] s)\<lparr>handler_at := H_Done, listener := Closed\<rparr>)
      | H_Done \<Rightarrow> None)"

text \<open>SIGINT or SIGTERM reaches the goroutine waiting in \<^verbatim>\<open><-notifier\<close>. A signal at any
  other moment is outside this model.\<close>

definition deliver_signal :: "process \<Rightarrow> process option" where
  "deliver_signal s =
     (if handler_at s = H_Receive
      then Some ((emit [ReceivesSignal] s)\<lparr>handler_at := H_Log\<rparr>)
      else None)"

datatype action = Main | Handler | Signal

text \<open>A step of the process; a process that has exited takes none.\<close>

definition step ::
  "(string \<Rightarrow> Duration option) \<Rightarrow> environment \<Rightarrow> process \<Rightarrow> action \<Rightarrow> process option" where
  "step pd env s a =
     (if exit_status s \<noteq> None then None
      else (case a of
              Main \<Rightarrow> main_step pd env s
            | Handler \<Rightarrow> handler_step s
            | Signal \<Rightarrow> deliver_signal s))"

text \<open>A run under a schedule, which names the action taken at each step; \<open>None\<close> when the
  schedule asks for a step that cannot be taken.\<close>

fun run ::
  "(string \<Rightarrow> Duration option) \<Rightarrow> environment \<Rightarrow> process \<Rightarrow> action list \<Rightarrow> process option" where
  "run pd env s [] = Some s"
| "run pd env s (a # as) =
     (case step pd env s a of
        None \<Rightarrow> None
      | Some s' \<Rightarrow> run pd env s' as)"

text \<open>The events of a graceful shutdown, from the signal to the end of the process.\<close>

definition shutdown_sequence :: "environment \<Rightarrow> event list" where
  "shutdown_sequence env =
     [ReceivesSignal,
      Logs ''Received SIGINT/SIGTERM; exiting gracefully...'',
      ClosesListener,
      ServeReturns (serve_error env),
      Logs (''HTTP server stopped: '' @ serve_error env),
      Sleeps Second,
      ShutsDownStore (shutdown_error env)]
     @ (case shutdown_error env of
          None \<Rightarrow> []
        | Some e \<Rightarrow> [Logs (''Problem shutting down metric storage: '' @ e)])
     @ [Exits 0]"

section \<open>The metric store of package storage\<close>

text \<open>
  main.go creates the store with \<^verbatim>\<open>storage.NewDiskMetricStore\<close> and hands it to the handlers
  of package \<^verbatim>\<open>handler\<close>; neither package is part of the visible code. The definitions of
  this section follow the specification of the store (its sections 3, 4.2 and 4.4), not
  code.
\<close>

type_synonym LabelPair = "string \<times> string"

text \<open>A grouping key is its label pairs in canonical order; two keys are equal when the
  sequences are.\<close>

type_synonym GroupingKey = "LabelPair list"

datatype MetricType = COUNTER | GAUGE | HISTOGRAM | SUMMARY | UNTYPED

record 'f Sample =
  sample_labels :: "LabelPair list"
  sample_values :: "'f list"

record 'f MetricFamily =
  family_name :: string
  family_help :: string
  family_type :: MetricType
  samples :: "'f Sample list"

type_synonym time = nat

record 'f MetricGroup =
  families :: "'f MetricFamily list"
  lastUpdate :: time

text \<open>The group table maps a grouping key to at most one group. \<open>persistence\<close> is the
  snapshot file and the minimum interval between writes, or \<open>None\<close> when the store keeps
  its metrics in memory only.\<close>

record 'f Store =
  groups :: "GroupingKey \<rightharpoonup> 'f MetricGroup"
  dirty :: bool
  lastPersisted :: "time option"
  persistence :: "(string \<times> Duration) option"

datatype store_error = MalformedPush

text \<open>
  Modelled from the spec: the validation of a family by \<^verbatim>\<open>Push\<close> of package storage, which
  is not in the visible code. The label sets of the family's samples are pairwise
  different, and no sample defines a label whose name is a label of the grouping key.
\<close>

definition family_ok :: "GroupingKey \<Rightarrow> 'f MetricFamily \<Rightarrow> bool" where
  "family_ok key f =
     (distinct (map (\<lambda>s. set (sample_labels s)) (samples f)) \<and>
      list_all (\<lambda>s. list_all (\<lambda>l. fst l \<notin> fst ` set key) (sample_labels s)) (samples f))"

text \<open>
  Modelled from the spec: the validation of a whole payload by \<^verbatim>\<open>Push\<close> of package storage,
  which is not in the visible code. Family names are unique within a group, so a payload
  that names a family twice is malformed; every family passes \<open>family_ok\<close>.
\<close>

definition payload_ok :: "GroupingKey \<Rightarrow> 'f MetricFamily list \<Rightarrow> bool" where
  "payload_ok key fams =
     (distinct (map family_name fams) \<and> list_all (family_ok key) fams)"

text \<open>
  Modelled from the spec: \<^verbatim>\<open>Push(key, families)\<close> of package storage, which is not in the
  visible code. On a validation failure the call fails and the table is as before; on
  success a new group is installed at the key, stamped with the current time, and the
  table is marked dirty.
\<close>

definition Push ::
  "time \<Rightarrow> GroupingKey \<Rightarrow> 'f MetricFamily list \<Rightarrow> 'f Store \<Rightarrow> store_error + 'f Store" where
  "Push now key fams s =
     (if payload_ok key fams
      then Inr (s\<lparr>groups := (groups s)(key \<mapsto> \<lparr>families = fams, lastUpdate = now\<rparr>),
                  dirty := True\<rparr>)
      else Inl MalformedPush)"

text \<open>
  Modelled from the spec: \<^verbatim>\<open>Delete(key)\<close> of package storage, which is not in the visible
  code. It removes the group at the key if there is one, which marks the table dirty;
  with no group at the key it changes nothing. It has no failing branch.
\<close>

definition Delete :: "GroupingKey \<Rightarrow> 'f Store \<Rightarrow> store_error + 'f Store" where
  "Delete key s =
     (if groups s key = None then Inr s
      else Inr (s\<lparr>groups := (groups s)(key := None), dirty := True\<rparr>))"

text \<open>
  Modelled from the spec: the snapshot of all groups that package storage hands to a
  reader (\<^verbatim>\<open>Get all groups()\<close> in section 4.2 of the specification); the function is not
  in the visible code.
\<close>

definition GetAllGroups :: "'f Store \<Rightarrow> (GroupingKey \<rightharpoonup> 'f MetricGroup)" where
  "GetAllGroups s = groups s"

text \<open>The families a snapshot holds for one key: none when the key has no group.\<close>

definition families_for ::
  "GroupingKey \<Rightarrow> (GroupingKey \<rightharpoonup> 'f MetricGroup) \<Rightarrow> 'f MetricFamily list" where
  "families_for key snapshot =
     (case snapshot key of None \<Rightarrow> [] | Some g \<Rightarrow> families g)"

text \<open>
  Modelled from the spec: \<^verbatim>\<open>storage.NewDiskMetricStore(file, interval)\<close>, which is not in the
  visible code. An empty file name disables persistence: nothing is loaded and the store
  has no snapshot file. Otherwise the store starts from the snapshot \<open>load\<close> reads from the
  file, or empty when the file is missing or does not parse (\<open>load\<close> gives \<open>None\<close>).
\<close>

definition NewDiskMetricStore ::
  "(string \<Rightarrow> (GroupingKey \<rightharpoonup> 'f MetricGroup) option) \<Rightarrow> string \<Rightarrow> Duration \<Rightarrow> 'f Store" where
  "NewDiskMetricStore load file interval =
     (if file = []
      then \<lparr>groups = Map.empty, dirty = False, lastPersisted = None, persistence = None\<rparr>
      else \<lparr>groups = (case load file of None \<Rightarrow> Map.empty | Some gs \<Rightarrow> gs),
            dirty = False, lastPersisted = None, persistence = Some (file, interval)\<rparr>)"

section \<open>Notions used in the statements and proofs\<close>

text \<open>The shared state after a list of requests, each with what the runtime reports
  while it is served.\<close>

definition served ::
  "(int \<Rightarrow> 'f) \<Rightarrow> (string \<Rightarrow> string) \<Rightarrow> (string \<Rightarrow> string \<Rightarrow> params option) \<Rightarrow>
   (params \<Rightarrow> 'b \<Rightarrow> 'ms \<Rightarrow> 'ms \<times> 'r) \<Rightarrow> (params \<Rightarrow> 'ms \<Rightarrow> 'ms \<times> 'r) \<Rightarrow>
   ('f, 'ms, 'mf) globals \<Rightarrow> (runtime \<times> string \<times> string \<times> 'b) list \<Rightarrow> ('f, 'ms, 'mf) globals" where
  "served f64 clean matcher push del g reqs =
     foldl (\<lambda>g (rt, meth, path, body). fst (serve f64 clean matcher push del rt meth path body g))
       g reqs"

text \<open>The seven metric objects of \<^verbatim>\<open>internalMetrics\<close> are still six gauges and a counter.\<close>

definition own_objects :: "('f, 'ms, 'mf) globals \<Rightarrow> bool" where
  "own_objects g =
     (list_all (\<lambda>r. case objects g r of Some (Gauge _) \<Rightarrow> True | _ \<Rightarrow> False) [0, 1, 2, 3, 4, 5] \<and>
      (case objects g 6 of Some (Counter _) \<Rightarrow> True | _ \<Rightarrow> False))"

text \<open>The events of a start-up that reaches the point where the goroutine waits for a
  signal.\<close>

definition startup_events :: "FlagSet \<Rightarrow> event list" where
  "startup_events fs =
     [CreatesStore (persistenceFile fs) (persistenceDuration fs),
      Logs (''Listening on '' @ addr fs @ ''.''),
      Listens (addr fs) None,
      StartsHandler,
      Notifies]"

definition parsed :: "(string \<Rightarrow> Duration option) \<Rightarrow> environment \<Rightarrow> process \<Rightarrow> bool" where
  "parsed pd env s = (flag_Parse pd CommandLine (args env) = Inr (flags s))"

text \<open>The invariant of the process: where \<^verbatim>\<open>main\<close> stands determines where the goroutine
  can stand, the state of the listener, and the trace so far.\<close>

definition inv :: "(string \<Rightarrow> Duration option) \<Rightarrow> environment \<Rightarrow> process \<Rightarrow> bool" where
  "inv pd env s =
     (case main_at s of
        M_Parse \<Rightarrow>
          flags s = CommandLine \<and> handler_at s = H_NotStarted \<and> listener s = NoListener \<and>
          exit_status s = None \<and> trace s = []
      | M_Setup \<Rightarrow>
          parsed pd env s \<and> handler_at s = H_NotStarted \<and> listener s = NoListener \<and>
          exit_status s = None \<and> trace s = []
      | M_LogListening \<Rightarrow>
          parsed pd env s \<and> handler_at s = H_NotStarted \<and> listener s = NoListener \<and>
          exit_status s = None \<and> trace s = take 1 (startup_events (flags s))
      | M_Listen \<Rightarrow>
          parsed pd env s \<and> handler_at s = H_NotStarted \<and> listener s = NoListener \<and>
          exit_status s = None \<and> trace s = take 2 (startup_events (flags s))
      | M_Fatal e \<Rightarrow>
          parsed pd env s \<and> handler_at s = H_NotStarted \<and> listener s = NoListener \<and>
          exit_status s = None \<and> listen_error env = Some e \<and>
          trace s = take 2 (startup_events (flags s)) @ [Listens (addr (flags s)) (Some e)]
      | M_Go \<Rightarrow>
          parsed pd env s \<and> handler_at s = H_NotStarted \<and> listener s = Listening \<and>
          exit_status s = None \<and> listen_error env = None \<and>
          trace s = take 3 (startup_events (flags s))
      | M_Serve \<Rightarrow>
          parsed pd env s \<and> exit_status s = None \<and> listen_error env = None \<and>
          (case handler_at s of
             H_NotStarted \<Rightarrow> False
           | H_Notify \<Rightarrow> listener s = Listening \<and> trace s = take 4 (startup_events (flags s))
           | H_Receive \<Rightarrow> listener s = Listening \<and> trace s = startup_events (flags s)
           | H_Log \<Rightarrow>
               listener s = Listening \<and>
               trace s = startup_events (flags s) @ take 1 (shutdown_sequence env)
           | H_Close \<Rightarrow>
               listener s = Listening \<and>
               trace s = startup_events (flags s) @ take 2 (shutdown_sequence env)
           | H_Done \<Rightarrow>
               listener s = Closed \<and>
               trace s = startup_events (flags s) @ take 3 (shutdown_sequence env))
      | M_LogStopped \<Rightarrow>
          parsed pd env s \<and> handler_at s = H_Done \<and> listener s = Closed \<and>
          exit_status s = None \<and> listen_error env = None \<and>
          trace s = startup_events (flags s) @ take 4 (shutdown_sequence env)
      | M_Sleep \<Rightarrow>
          parsed pd env s \<and> handler_at s = H_Done \<and> listener s = Closed \<and>
          exit_status s = None \<and> listen_error env = None \<and>
          trace s = startup_events (flags s) @ take 5 (shutdown_sequence env)
      | M_Shutdown \<Rightarrow>
          parsed pd env s \<and> handler_at s = H_Done \<and> listener s = Closed \<and>
          exit_status s = None \<and> listen_error env = None \<and>
          trace s = startup_events (flags s) @ take 6 (shutdown_sequence env)
      | M_LogProblem e \<Rightarrow>
          parsed pd env s \<and> handler_at s = H_Done \<and> listener s = Closed \<and>
          exit_status s = None \<and> listen_error env = None \<and> shutdown_error env = Some e \<and>
          trace s = startup_events (flags s) @ take 7 (shutdown_sequence env)
      | M_Return \<Rightarrow>
          parsed pd env s \<and> handler_at s = H_Done \<and> listener s = Closed \<and>
          exit_status s = None \<and> listen_error env = None \<and>
          trace s = startup_events (flags s) @ butlast (shutdown_sequence env)
      | M_Done \<Rightarrow>
          (case exit_status s of
             None \<Rightarrow> False
           | Some n \<Rightarrow>
               if n = 0 then
                 parsed pd env s \<and> handler_at s = H_Done \<and> listener s = Closed \<and>
                 listen_error env = None \<and>
                 trace s = startup_events (flags s) @ shutdown_sequence env
               else if n = 1 then
                 parsed pd env s \<and> handler_at s = H_NotStarted \<and> listener s = NoListener \<and>
                 (case listen_error env of
                    None \<Rightarrow> False
                  | Some e \<Rightarrow>
                      trace s = take 2 (startup_events (flags s))
                                @ [Listens (addr (flags s)) (Some e), Logs e, Exits 1])
               else
                 n = 2 \<and> flags s = CommandLine \<and> handler_at s = H_NotStarted \<and>
                 listener s = NoListener \<and> trace s = [Exits 2] \<and>
                 (case flag_Parse pd CommandLine (args env) of Inl _ \<Rightarrow> True | Inr _ \<Rightarrow> False)))"

text \<open>The flag set of main.go with the three values \<open>a\<close>, \<open>f\<close> and \<open>d\<close>.\<close>

definition with_values :: "string \<Rightarrow> string \<Rightarrow> Duration \<Rightarrow> FlagSet" where
  "with_values a f d =
     [\<lparr>Name = ''addr'', Usage = ''Address to listen on.'',
       Value = StringValue a, DefValue = StringValue '':8080''\<rparr>,
      \<lparr>Name = ''persistence.file'',
       Usage = ''File to persist metrics. If empty, metrics are only kept in memory.'',
       Value = StringValue f, DefValue = StringValue ''''\<rparr>,
      \<lparr>Name = ''persistence.duration'',
       Usage = ''Do not write the persistence file more often than that.'',
       Value = DurationValue d, DefValue = DurationValue (5 * Minute)\<rparr>]"

text \<open>Stand-ins for the handlers of package \<^verbatim>\<open>handler\<close> that record how they were called.\<close>

definition record_push ::
  "params \<Rightarrow> string \<Rightarrow> (string \<times> params \<times> string) list \<Rightarrow>
     (string \<times> params \<times> string) list \<times> unit" where
  "record_push ps body s = (s @ [(''Push'', ps, body)], ())"

definition record_delete ::
  "params \<Rightarrow> (string \<times> params \<times> string) list \<Rightarrow> (string \<times> params \<times> string) list \<times> unit" where
  "record_delete ps s = (s @ [(''Delete'', ps, [])], ())"

definition listening ::
  "(int, (string \<times> params \<times> string) list, string \<times> params \<times> string) globals" where
  "listening = startup (\<lambda>i. i) (\<lambda>f d. []) (\<lambda>s. s) CommandLine"

text \<open>Inputs at which the statements below are evaluated.\<close>

definition no_durations :: "string \<Rightarrow> Duration option" where
  "no_durations v = None"

definition quiet_environment :: environment where
  "quiet_environment =
     \<lparr>args = [], listen_error = None,
      serve_error = ''use of closed network connection'', shutdown_error = None\<rparr>"

definition graceful_schedule :: "action list" where
  "graceful_schedule =
     [Main, Main, Main, Main, Main, Handler, Signal, Handler, Handler,
      Main, Main, Main, Main, Main]"

definition failing_flush_environment :: environment where
  "failing_flush_environment = quiet_environment\<lparr>shutdown_error := Some ''disk full''\<rparr>"

definition flush_schedule :: "action list" where
  "flush_schedule =
     [Main, Main, Main, Main, Main, Handler, Signal, Handler, Handler, Main, Main, Main, Main]"

definition busy_port_environment :: environment where
  "busy_port_environment = quiet_environment\<lparr>listen_error := Some ''address already in use''\<rparr>"

definition example_runtime :: runtime where
  "example_runtime =
     \<lparr>NumGoroutine = 7,
      ReadMemStats =
        \<lparr>Alloc = 1, TotalAlloc = 2, HeapAlloc = 3, NextGC = 4, PauseTotalNs = 5, NumGC = 6\<rparr>\<rparr>"

definition pushed_once ::
  "(int, (string \<times> params \<times> string) list, string \<times> params \<times> string) globals" where
  "pushed_once =
     fst (serve (\<lambda>i. i) cleanPath segment_try record_push record_delete example_runtime
            ''PUT'' ''/metrics/job/j1'' ''body'' listening)"

definition example_family :: "string \<Rightarrow> int MetricFamily" where
  "example_family n =
     \<lparr>family_name = n, family_help = ''help'', family_type = GAUGE,
      samples = [\<lparr>sample_labels = [(''code'', ''200'')], sample_values = [1]\<rparr>]\<rparr>"

definition empty_store :: "int Store" where
  "empty_store = \<lparr>groups = Map.empty, dirty = False, lastPersisted = None, persistence = None\<rparr>"

section \<open>The routes\<close>

lemma ServeHTTP_mux:
  "ServeHTTP matcher mux meth path =
     (if meth = ''GET'' \<or> meth = ''HEAD'' then
        (case matcher ''/metrics'' path of
           None \<Rightarrow> None
         | Some ps \<Rightarrow> Some (metrics_func, ps))
      else if meth = ''PUT'' \<or> meth = ''POST'' then
        (case matcher ''/metrics/job/:job/instance/:instance'' path of
           Some ps \<Rightarrow> Some (handler_Push, ps)
         | None \<Rightarrow>
             (case matcher ''/metrics/job/:job'' path of
                Some ps \<Rightarrow> Some (handler_Push, ps)
              | None \<Rightarrow> None))
      else if meth = ''DELETE'' then
        (case matcher ''/metrics/job/:job/instance/:instance'' path of
           Some ps \<Rightarrow> Some (handler_Delete, ps)
         | None \<Rightarrow>
             (case matcher ''/metrics/job/:job'' path of
                Some ps \<Rightarrow> Some (handler_Delete, ps)
              | None \<Rightarrow> None))
      else None)"
  by (auto simp: mux_def pat_New_def Get_def Put_def Post_def Del_def Add_def
      split: option.splits)

lemma serve_dispatch:
  "serve f64 clean matcher push del rt meth path body g =
     (if (meth \<noteq> ''CONNECT'' \<and> clean path \<noteq> path) \<or> pprof_path path then (g, NoRoute)
      else
        (case ServeHTTP matcher mux meth path of
           None \<Rightarrow> (g, NoRoute)
         | Some (h, ps) \<Rightarrow>
             (case h of
                metrics_func \<Rightarrow>
                  (updateInternalMetrics f64 rt g,
                   Scrape (DefaultHandler (updateInternalMetrics f64 rt g)))
              | handler_Push \<Rightarrow>
                  (g\<lparr>ms := fst (push ps body (ms g))\<rparr>, Pushed (snd (push ps body (ms g))))
              | handler_Delete \<Rightarrow>
                  (g\<lparr>ms := fst (del ps (ms g))\<rparr>, Deleted (snd (del ps (ms g)))))))"
  by (auto simp: serve_def reaches_mux_def metrics_handler_def Let_def
      split: option.splits prod.splits handler.splits)

section \<open>The process's own metrics are refreshed by every scrape\<close>

lemma startup_registered:
  "registered (startup f64 ns gmf fs) =
     map (\<lambda>im. (im_name im, im_help im, im_metric im)) (internalMetrics f64)"
  by (simp add: startup_def registerInternalMetrics_def internalMetrics_def Register_def)

lemma startup_rest:
  "objects (startup f64 ns gmf fs) = initial_objects"
  "injectionHook (startup f64 ns gmf fs) = Some gmf"
  "ms (startup f64 ns gmf fs) = ns (persistenceFile fs) (persistenceDuration fs)"
  by (simp_all add: startup_def registerInternalMetrics_def internalMetrics_def Register_def)

lemma startup_own_objects: "own_objects (startup f64 ns gmf fs)"
  by (simp add: own_objects_def startup_rest initial_objects_def)

lemma own_objectsD:
  assumes "own_objects g"
  obtains v0 v1 v2 v3 v4 v5 v6 where
    "objects g 0 = Some (Gauge v0)" "objects g 1 = Some (Gauge v1)"
    "objects g 2 = Some (Gauge v2)" "objects g 3 = Some (Gauge v3)"
    "objects g 4 = Some (Gauge v4)" "objects g 5 = Some (Gauge v5)"
    "objects g 6 = Some (Counter v6)"
  using assms unfolding own_objects_def
  by (auto split: option.splits Metric.splits)

lemma update_objects:
  assumes "objects g 0 = Some (Gauge v0)" "objects g 1 = Some (Gauge v1)"
    "objects g 2 = Some (Gauge v2)" "objects g 3 = Some (Gauge v3)"
    "objects g 4 = Some (Gauge v4)" "objects g 5 = Some (Gauge v5)"
    "objects g 6 = Some (Counter v6)"
  shows "updateInternalMetrics f64 rt g =
     g\<lparr>memStats := ReadMemStats rt,
       objects := (objects g)
         (0 \<mapsto> Gauge (Some (f64 (NumGoroutine rt))),
          1 \<mapsto> Gauge (Some (f64 (uint (Alloc (ReadMemStats rt))))),
          2 \<mapsto> Gauge (Some (f64 (uint (TotalAlloc (ReadMemStats rt))))),
          3 \<mapsto> Gauge (Some (f64 (uint (HeapAlloc (ReadMemStats rt))))),
          4 \<mapsto> Gauge (Some (f64 (uint (NextGC (ReadMemStats rt))))),
          5 \<mapsto> Gauge (Some (f64 (uint (PauseTotalNs (ReadMemStats rt))))),
          6 \<mapsto> Counter (Some (f64 (uint (NumGC (ReadMemStats rt))))))\<rparr>"
  using assms
  by (simp add: updateInternalMetrics_def internalMetrics_def update_metric_def)

lemma update_own:
  assumes "own_objects g"
  shows "updateInternalMetrics f64 rt g =
     g\<lparr>memStats := ReadMemStats rt,
       objects := (objects g)
         (0 \<mapsto> Gauge (Some (f64 (NumGoroutine rt))),
          1 \<mapsto> Gauge (Some (f64 (uint (Alloc (ReadMemStats rt))))),
          2 \<mapsto> Gauge (Some (f64 (uint (TotalAlloc (ReadMemStats rt))))),
          3 \<mapsto> Gauge (Some (f64 (uint (HeapAlloc (ReadMemStats rt))))),
          4 \<mapsto> Gauge (Some (f64 (uint (NextGC (ReadMemStats rt))))),
          5 \<mapsto> Gauge (Some (f64 (uint (PauseTotalNs (ReadMemStats rt))))),
          6 \<mapsto> Counter (Some (f64 (uint (NumGC (ReadMemStats rt))))))\<rparr>"
  using assms by (elim own_objectsD) (rule update_objects)

lemma update_keeps:
  assumes "own_objects g"
  shows "own_objects (updateInternalMetrics f64 rt g)"
    and "registered (updateInternalMetrics f64 rt g) = registered g"
    and "injectionHook (updateInternalMetrics f64 rt g) = injectionHook g"
    and "ms (updateInternalMetrics f64 rt g) = ms g"
    and "logged (updateInternalMetrics f64 rt g) = logged g"
  by (simp_all add: update_own [OF assms] own_objects_def)

lemma serve_keeps:
  assumes "own_objects g"
  shows "own_objects (fst (serve f64 clean matcher push del rt meth path body g)) \<and>
    registered (fst (serve f64 clean matcher push del rt meth path body g)) = registered g \<and>
    injectionHook (fst (serve f64 clean matcher push del rt meth path body g)) = injectionHook g"
proof (cases "(meth \<noteq> ''CONNECT'' \<and> clean path \<noteq> path) \<or> pprof_path path")
  case True
  then show ?thesis using assms by (simp add: serve_dispatch)
next
  case False
  note reach = this
  show ?thesis
  proof (cases "ServeHTTP matcher mux meth path")
    case None
    then show ?thesis using assms reach by (simp add: serve_dispatch)
  next
    case (Some hp)
    obtain h ps where hp: "hp = (h, ps)" by (cases hp) auto
    show ?thesis
    proof (cases h)
      case metrics_func
      then show ?thesis
        using update_keeps [OF assms, of f64 rt] Some hp reach assms
        by (auto simp: serve_dispatch)
    next
      case handler_Push
      then show ?thesis
        using assms Some hp reach
        by (auto simp: serve_dispatch own_objects_def)
    next
      case handler_Delete
      then show ?thesis
        using assms Some hp reach
        by (auto simp: serve_dispatch own_objects_def)
    qed
  qed
qed

lemma served_keeps:
  assumes "own_objects g"
  shows "own_objects (served f64 clean matcher push del g reqs) \<and>
    registered (served f64 clean matcher push del g reqs) = registered g \<and>
    injectionHook (served f64 clean matcher push del g reqs) = injectionHook g"
  using assms
proof (induction reqs arbitrary: g)
  case Nil
  then show ?case by (simp add: served_def)
next
  case (Cons rq reqs)
  obtain rt meth path body where rq: "rq = (rt, meth, path, body)"
    by (cases rq) auto
  let ?g = "fst (serve f64 clean matcher push del rt meth path body g)"
  have step: "served f64 clean matcher push del g (rq # reqs) =
      served f64 clean matcher push del ?g reqs"
    by (simp add: served_def rq)
  have "own_objects ?g \<and> registered ?g = registered g \<and> injectionHook ?g = injectionHook g"
    by (rule serve_keeps [OF Cons.prems])
  with Cons.IH [of ?g] show ?case unfolding step by simp
qed

lemma served_from_startup:
  assumes "g = served f64 clean matcher push del (startup f64 new_store get_families fs) reqs"
  shows "own_objects g"
    and "registered g =
      map (\<lambda>im. (im_name im, im_help im, im_metric im)) (internalMetrics f64)"
    and "injectionHook g = Some get_families"
proof -
  let ?s = "startup f64 new_store get_families fs"
  have "own_objects (served f64 clean matcher push del ?s reqs) \<and>
      registered (served f64 clean matcher push del ?s reqs) = registered ?s \<and>
      injectionHook (served f64 clean matcher push del ?s reqs) = injectionHook ?s"
    by (rule served_keeps [OF startup_own_objects])
  then show "own_objects g" "registered g =
      map (\<lambda>im. (im_name im, im_help im, im_metric im)) (internalMetrics f64)"
    "injectionHook g = Some get_families"
    by (simp_all add: assms startup_registered startup_rest)
qed

lemma scrape_is_fresh:
  assumes "g = served f64 clean matcher push del (startup f64 new_store get_families fs) reqs"
  shows "memStats (updateInternalMetrics f64 rt g) = ReadMemStats rt \<and>
    own_metrics (DefaultHandler (updateInternalMetrics f64 rt g)) =
      [(''instance_goroutine_count'', ''The number of goroutines that currently exist.'',
          Some (Gauge (Some (f64 (NumGoroutine rt))))),
       (''instance_allocated_bytes'', ''Bytes allocated and still in use.'',
          Some (Gauge (Some (f64 (uint (Alloc (ReadMemStats rt))))))),
       (''instance_total_allocated_bytes'', ''Bytes allocated (even if freed).'',
          Some (Gauge (Some (f64 (uint (TotalAlloc (ReadMemStats rt))))))),
       (''instance_heap_allocated_bytes'', ''Heap bytes allocated and still in use.'',
          Some (Gauge (Some (f64 (uint (HeapAlloc (ReadMemStats rt))))))),
       (''instance_gc_high_watermark_bytes'', ''Next run in HeapAlloc time (bytes).'',
          Some (Gauge (Some (f64 (uint (NextGC (ReadMemStats rt))))))),
       (''instance_gc_total_pause_ns'', ''Total GC paise time.'',
          Some (Gauge (Some (f64 (uint (PauseTotalNs (ReadMemStats rt))))))),
       (''instance_gc_count'', ''GC count.'',
          Some (Counter (Some (f64 (uint (NumGC (ReadMemStats rt)))))))] \<and>
    injected (DefaultHandler (updateInternalMetrics f64 rt g)) = get_families (ms g) \<and>
    ms (updateInternalMetrics f64 rt g) = ms g"
proof -
  note inv = served_from_startup [OF assms]
  show ?thesis
    unfolding update_own [OF inv(1)]
    by (simp add: DefaultHandler_def inv internalMetrics_def)
qed

text \<open>
  Claim C10. Whatever requests the process has served before, a \<^verbatim>\<open>GET\<close> request that
  reaches the route \<^verbatim>\<open>/metrics\<close> is answered by the handler of lines 93-96, which first
  stores what the runtime reports now into the seven metrics of \<^verbatim>\<open>internalMetrics\<close> and
  renders afterwards: the exposition lists the seven \<^verbatim>\<open>instance_\<close> metrics with the values
  of this request (six gauges and the counter \<^verbatim>\<open>instance_gc_count\<close>), next to the families
  the store hands to the registry.
\<close>

theorem internal_metrics_refreshed:
  assumes "g = served f64 clean matcher push del (startup f64 new_store get_families fs) reqs"
    and "clean path = path" and "\<not> pprof_path path"
    and "matcher ''/metrics'' path = Some ps"
  shows "\<exists>g' out.
    serve f64 clean matcher push del rt ''GET'' path body g = (g', Scrape out) \<and>
    memStats g' = ReadMemStats rt \<and>
    own_metrics out =
      [(''instance_goroutine_count'', ''The number of goroutines that currently exist.'',
          Some (Gauge (Some (f64 (NumGoroutine rt))))),
       (''instance_allocated_bytes'', ''Bytes allocated and still in use.'',
          Some (Gauge (Some (f64 (uint (Alloc (ReadMemStats rt))))))),
       (''instance_total_allocated_bytes'', ''Bytes allocated (even if freed).'',
          Some (Gauge (Some (f64 (uint (TotalAlloc (ReadMemStats rt))))))),
       (''instance_heap_allocated_bytes'', ''Heap bytes allocated and still in use.'',
          Some (Gauge (Some (f64 (uint (HeapAlloc (ReadMemStats rt))))))),
       (''instance_gc_high_watermark_bytes'', ''Next run in HeapAlloc time (bytes).'',
          Some (Gauge (Some (f64 (uint (NextGC (ReadMemStats rt))))))),
       (''instance_gc_total_pause_ns'', ''Total GC paise time.'',
          Some (Gauge (Some (f64 (uint (PauseTotalNs (ReadMemStats rt))))))),
       (''instance_gc_count'', ''GC count.'',
          Some (Counter (Some (f64 (uint (NumGC (ReadMemStats rt)))))))] \<and>
    injected out = get_families (ms g) \<and> ms g' = ms g"
proof -
  let ?g' = "updateInternalMetrics f64 rt g"
  have "serve f64 clean matcher push del rt ''GET'' path body g =
      (?g', Scrape (DefaultHandler ?g'))"
    using assms(2-4) by (auto simp: serve_dispatch ServeHTTP_mux)
  with scrape_is_fresh [OF assms(1), of rt] show ?thesis by blast
qed

lemma listening_served:
  "listening = served (\<lambda>i. i) cleanPath segment_try record_push record_delete
      (startup (\<lambda>i. i) (\<lambda>f d. []) (\<lambda>s. s) CommandLine) []"
  by (simp add: listening_def served_def)

lemma pushed_once_served:
  "pushed_once = served (\<lambda>i. i) cleanPath segment_try record_push record_delete
      (startup (\<lambda>i. i) (\<lambda>f d. []) (\<lambda>s. s) CommandLine)
      [(example_runtime, ''PUT'', ''/metrics/job/j1'', ''body'')]"
  by (simp add: pushed_once_def listening_def served_def)

lemma ms_listening: "ms listening = []"
  by (simp add: listening_def startup_rest)

lemma clean_examples:
  "cleanPath ''/metrics'' = ''/metrics''"
  "cleanPath ''/metrics/job/j1'' = ''/metrics/job/j1''"
  "cleanPath ''/metrics/job/j1/instance/i1'' = ''/metrics/job/j1/instance/i1''"
  "cleanPath ''/metrics/job//instance/i1'' = ''/metrics/job/instance/i1''"
  "cleanPath ''/metrics/'' = ''/metrics/''"
  by (simp_all add: cleanPath_def)

lemma pprof_examples:
  "\<not> pprof_path ''/metrics''"
  "\<not> pprof_path ''/metrics/job/j1''"
  "\<not> pprof_path ''/metrics/job/j1/instance/i1''"
  "pprof_path ''/debug/pprof/heap''"
  by (simp_all add: pprof_path_def)

lemma ms_pushed_once: "ms pushed_once = [(''Push'', [('':job'', ''j1'')], ''body'')]"
  by (simp add: pushed_once_def serve_dispatch ServeHTTP_mux segment_try_def record_push_def
      ms_listening clean_examples pprof_examples)

theorem internal_metrics_refreshed_witness:
  "\<exists>g' out.
     serve (\<lambda>i. i) cleanPath segment_try record_push record_delete example_runtime
       ''GET'' ''/metrics'' '''' pushed_once = (g', Scrape out) \<and>
     own_metrics out =
       [(''instance_goroutine_count'', ''The number of goroutines that currently exist.'',
           Some (Gauge (Some 7))),
        (''instance_allocated_bytes'', ''Bytes allocated and still in use.'',
           Some (Gauge (Some 1))),
        (''instance_total_allocated_bytes'', ''Bytes allocated (even if freed).'',
           Some (Gauge (Some 2))),
        (''instance_heap_allocated_bytes'', ''Heap bytes allocated and still in use.'',
           Some (Gauge (Some 3))),
        (''instance_gc_high_watermark_bytes'', ''Next run in HeapAlloc time (bytes).'',
           Some (Gauge (Some 4))),
        (''instance_gc_total_pause_ns'', ''Total GC paise time.'',
           Some (Gauge (Some 5))),
        (''instance_gc_count'', ''GC count.'',
           Some (Counter (Some 6)))] \<and>
     injected out = [(''Push'', [('':job'', ''j1'')], ''body'')]"
proof -
  have m: "segment_try ''/metrics'' ''/metrics'' = Some []"
    by (simp add: segment_try_def)
  from internal_metrics_refreshed [OF pushed_once_served clean_examples(1) pprof_examples(1) m,
      of example_runtime "''''"]
  show ?thesis
    by (simp add: example_runtime_def ms_pushed_once) blast
qed

section \<open>The HTTP surface\<close>

text \<open>
  Claim C5, as stated, fails at two requests. \<^verbatim>\<open>HEAD\<close> on \<^verbatim>\<open>/metrics\<close> is no row of the specified
  table, yet it runs the handler of \<^verbatim>\<open>/metrics\<close>, because \<^verbatim>\<open>Get\<close> of \<^verbatim>\<open>pat\<close> registers the
  pattern for \<^verbatim>\<open>HEAD\<close> too. And \<^verbatim>\<open>PUT\<close> on \<^verbatim>\<open>/metrics/job//instance/i1\<close> has the shape of
  \<^verbatim>\<open>/metrics/job/:job/instance/:instance\<close> (the matcher binds the job to the empty text),
  yet no push handler is called: the default multiplexer answers the unclean path with
  a redirect and the store is as before.
\<close>

theorem http_surface_counterexample:
  "serve (\<lambda>i. i) cleanPath segment_try record_push record_delete example_runtime
       ''HEAD'' ''/metrics'' '''' listening =
     (updateInternalMetrics (\<lambda>i. i) example_runtime listening,
      Scrape (DefaultHandler (updateInternalMetrics (\<lambda>i. i) example_runtime listening))) \<and>
   segment_try ''/metrics/job/:job/instance/:instance'' ''/metrics/job//instance/i1'' =
     Some [('':job'', ''''), ('':instance'', ''i1'')] \<and>
   serve (\<lambda>i. i) cleanPath segment_try record_push record_delete example_runtime
       ''PUT'' ''/metrics/job//instance/i1'' ''body'' listening =
     (listening, NoRoute)"
  by (simp add: serve_dispatch ServeHTTP_mux segment_try_def clean_examples pprof_examples)

text \<open>
  Claim C5, amended. A request reaches \<^verbatim>\<open>mux\<close> when cleaning leaves its path unchanged (or
  its method is \<^verbatim>\<open>CONNECT\<close>) and the path is not at or under \<^verbatim>\<open>/debug/pprof\<close>. Such a request
  is served as the table of routes says: \<^verbatim>\<open>GET\<close>, and also \<^verbatim>\<open>HEAD\<close>, on \<^verbatim>\<open>/metrics\<close>
  refreshes the process's own metrics and renders the exposition, whose injected
  families are those the store returns; \<^verbatim>\<open>PUT\<close> and \<^verbatim>\<open>POST\<close> on the two job patterns call
  the push handler on the store with the parameters of the match, and \<^verbatim>\<open>DELETE\<close> on them
  calls the delete handler; the pattern with the instance is tried before the one
  without. Every other request, one that does not reach \<^verbatim>\<open>mux\<close> included, calls none of
  the three handlers and leaves the shared state as it was.
\<close>

theorem http_surface:
  assumes "g = served f64 clean matcher push del (startup f64 new_store get_families fs) reqs"
  shows "serve f64 clean matcher push del rt meth path body g =
     (if (meth \<noteq> ''CONNECT'' \<and> clean path \<noteq> path) \<or> pprof_path path then (g, NoRoute)
      else if meth = ''GET'' \<or> meth = ''HEAD'' then
        (case matcher ''/metrics'' path of
           None \<Rightarrow> (g, NoRoute)
         | Some ps \<Rightarrow>
             (updateInternalMetrics f64 rt g,
              Scrape (DefaultHandler (updateInternalMetrics f64 rt g))))
      else if meth = ''PUT'' \<or> meth = ''POST'' then
        (case matcher ''/metrics/job/:job/instance/:instance'' path of
           Some ps \<Rightarrow> (g\<lparr>ms := fst (push ps body (ms g))\<rparr>, Pushed (snd (push ps body (ms g))))
         | None \<Rightarrow>
             (case matcher ''/metrics/job/:job'' path of
                Some ps \<Rightarrow>
                  (g\<lparr>ms := fst (push ps body (ms g))\<rparr>, Pushed (snd (push ps body (ms g))))
              | None \<Rightarrow> (g, NoRoute)))
      else if meth = ''DELETE'' then
        (case matcher ''/metrics/job/:job/instance/:instance'' path of
           Some ps \<Rightarrow> (g\<lparr>ms := fst (del ps (ms g))\<rparr>, Deleted (snd (del ps (ms g))))
         | None \<Rightarrow>
             (case matcher ''/metrics/job/:job'' path of
                Some ps \<Rightarrow> (g\<lparr>ms := fst (del ps (ms g))\<rparr>, Deleted (snd (del ps (ms g))))
              | None \<Rightarrow> (g, NoRoute)))
      else (g, NoRoute)) \<and>
    injected (DefaultHandler (updateInternalMetrics f64 rt g)) = get_families (ms g)"
proof -
  have inj: "injected (DefaultHandler (updateInternalMetrics f64 rt g)) = get_families (ms g)"
    using scrape_is_fresh [OF assms, of rt] by blast
  show ?thesis
    unfolding serve_dispatch ServeHTTP_mux using inj
    by (auto split: option.splits)
qed

theorem http_surface_witness:
  "ms (fst (serve (\<lambda>i. i) cleanPath segment_try record_push record_delete example_runtime
        ''PUT'' ''/metrics/job/j1/instance/i1'' ''body'' listening)) =
     [(''Push'', [('':job'', ''j1''), ('':instance'', ''i1'')], ''body'')] \<and>
   ms (fst (serve (\<lambda>i. i) cleanPath segment_try record_push record_delete example_runtime
        ''POST'' ''/metrics/job/j1'' ''body'' listening)) =
     [(''Push'', [('':job'', ''j1'')], ''body'')] \<and>
   ms (fst (serve (\<lambda>i. i) cleanPath segment_try record_push record_delete example_runtime
        ''DELETE'' ''/metrics/job/j1'' '''' listening)) =
     [(''Delete'', [('':job'', ''j1'')], [])] \<and>
   snd (serve (\<lambda>i. i) cleanPath segment_try record_push record_delete example_runtime
        ''GET'' ''/metrics'' '''' pushed_once) =
     Scrape (DefaultHandler (updateInternalMetrics (\<lambda>i. i) example_runtime pushed_once)) \<and>
   injected (DefaultHandler (updateInternalMetrics (\<lambda>i. i) example_runtime pushed_once)) =
     [(''Push'', [('':job'', ''j1'')], ''body'')] \<and>
   snd (serve (\<lambda>i. i) cleanPath segment_try record_push record_delete example_runtime
        ''GET'' ''/metrics/job/j1'' '''' listening) = NoRoute \<and>
   snd (serve (\<lambda>i. i) cleanPath segment_try record_push record_delete example_runtime
        ''PATCH'' ''/metrics'' '''' listening) = NoRoute \<and>
   snd (serve (\<lambda>i. i) cleanPath segment_try record_push record_delete example_runtime
        ''GET'' ''/debug/pprof/heap'' '''' listening) = NoRoute"
proof -
  note at_listening =
    http_surface [where ?f64.0 = "\<lambda>i. i" and ?clean = cleanPath and ?matcher = segment_try
      and ?push = record_push and ?del = record_delete and ?new_store = "\<lambda>f d. []"
      and ?get_families = "\<lambda>s. s" and ?fs = CommandLine and ?reqs = "[]" and ?g = listening
      and ?rt = example_runtime, OF listening_served]
  note at_pushed =
    http_surface [where ?f64.0 = "\<lambda>i. i" and ?clean = cleanPath and ?matcher = segment_try
      and ?push = record_push and ?del = record_delete and ?new_store = "\<lambda>f d. []"
      and ?get_families = "\<lambda>s. s" and ?fs = CommandLine
      and ?reqs = "[(example_runtime, ''PUT'', ''/metrics/job/j1'', ''body'')]"
      and ?g = pushed_once and ?rt = example_runtime, OF pushed_once_served]
  show ?thesis
    using at_listening [of "''PUT''" "''/metrics/job/j1/instance/i1''" "''body''"]
      at_listening [of "''POST''" "''/metrics/job/j1''" "''body''"]
      at_listening [of "''DELETE''" "''/metrics/job/j1''" "''''"]
      at_pushed [of "''GET''" "''/metrics''" "''''"]
      at_listening [of "''GET''" "''/metrics/job/j1''" "''''"]
      at_listening [of "''PATCH''" "''/metrics''" "''''"]
      at_listening [of "''GET''" "''/debug/pprof/heap''" "''''"]
    by (simp add: segment_try_def ms_listening ms_pushed_once record_push_def record_delete_def
        clean_examples pprof_examples)
qed

section \<open>The invariant of start-up and shutdown\<close>

lemma inv_initial: "inv pd env initial"
  by (simp add: inv_def initial_def)

lemma inv_main:
  assumes "inv pd env s" and "exit_status s = None" and "main_step pd env s = Some s'"
  shows "inv pd env s'"
proof (cases "main_at s")
  case M_Parse
  then show ?thesis using assms
    by (auto simp: inv_def main_step_def parsed_def exit_with_def emit_def split: sum.splits)
next
  case M_Setup
  then show ?thesis using assms
    by (auto simp: inv_def main_step_def parsed_def emit_def startup_events_def)
next
  case M_LogListening
  then show ?thesis using assms
    by (auto simp: inv_def main_step_def parsed_def emit_def startup_events_def)
next
  case M_Listen
  then show ?thesis using assms
    by (auto simp: inv_def main_step_def parsed_def emit_def startup_events_def
        split: option.splits)
next
  case (M_Fatal e)
  then show ?thesis using assms
    by (auto simp: inv_def main_step_def parsed_def emit_def exit_with_def startup_events_def)
next
  case M_Go
  then show ?thesis using assms
    by (auto simp: inv_def main_step_def parsed_def emit_def startup_events_def)
next
  case M_Serve
  then show ?thesis using assms
    by (auto simp: inv_def main_step_def parsed_def emit_def shutdown_sequence_def
        split: if_splits handler_pc.splits)
next
  case M_LogStopped
  then show ?thesis using assms
    by (auto simp: inv_def main_step_def parsed_def emit_def shutdown_sequence_def)
next
  case M_Sleep
  then show ?thesis using assms
    by (auto simp: inv_def main_step_def parsed_def emit_def shutdown_sequence_def)
next
  case M_Shutdown
  then show ?thesis using assms
    by (auto simp: inv_def main_step_def parsed_def emit_def shutdown_sequence_def
        butlast_append split: option.splits)
next
  case (M_LogProblem e)
  then show ?thesis using assms
    by (auto simp: inv_def main_step_def parsed_def emit_def shutdown_sequence_def
        butlast_append)
next
  case M_Return
  then show ?thesis using assms
    by (auto simp: inv_def main_step_def parsed_def emit_def exit_with_def
        shutdown_sequence_def butlast_append split: option.splits)
next
  case M_Done
  then show ?thesis using assms by (simp add: main_step_def)
qed

lemma inv_handler:
  assumes "inv pd env s" and "exit_status s = None" and "handler_step s = Some s'"
  shows "inv pd env s'"
proof -
  have not_done: "main_at s \<noteq> M_Done"
    using assms(1,2) by (auto simp: inv_def)
  show ?thesis
  proof (cases "handler_at s")
    case H_NotStarted
    then show ?thesis using assms by (simp add: handler_step_def)
  next
    case H_Notify
    then show ?thesis using assms not_done
      by (cases "main_at s")
        (auto simp: inv_def handler_step_def parsed_def emit_def startup_events_def)
  next
    case H_Receive
    then show ?thesis using assms by (simp add: handler_step_def)
  next
    case H_Log
    then show ?thesis using assms not_done
      by (cases "main_at s")
        (auto simp: inv_def handler_step_def parsed_def emit_def shutdown_sequence_def)
  next
    case H_Close
    then show ?thesis using assms not_done
      by (cases "main_at s")
        (auto simp: inv_def handler_step_def parsed_def emit_def shutdown_sequence_def)
  next
    case H_Done
    then show ?thesis using assms by (simp add: handler_step_def)
  qed
qed

lemma inv_signal:
  assumes "inv pd env s" and "exit_status s = None" and "deliver_signal s = Some s'"
  shows "inv pd env s'"
proof -
  have not_done: "main_at s \<noteq> M_Done"
    using assms(1,2) by (auto simp: inv_def)
  from assms(3) have h: "handler_at s = H_Receive"
    by (auto simp: deliver_signal_def split: if_splits)
  show ?thesis using assms not_done h
    by (cases "main_at s")
      (auto simp: inv_def deliver_signal_def parsed_def emit_def shutdown_sequence_def)
qed

lemma inv_step:
  assumes "inv pd env s" and "step pd env s a = Some s'"
  shows "inv pd env s'"
proof -
  from assms(2) have running: "exit_status s = None"
    by (auto simp: step_def split: if_splits)
  show ?thesis
  proof (cases a)
    case Main
    then show ?thesis using assms running by (auto simp: step_def intro: inv_main)
  next
    case Handler
    then show ?thesis using assms running by (auto simp: step_def intro: inv_handler)
  next
    case Signal
    then show ?thesis using assms running by (auto simp: step_def intro: inv_signal)
  qed
qed

lemma inv_run:
  assumes "run pd env s sched = Some s'" and "inv pd env s"
  shows "inv pd env s'"
  using assms
proof (induction sched arbitrary: s)
  case Nil
  then show ?case by simp
next
  case (Cons a sched)
  then show ?case by (auto split: option.splits dest: inv_step)
qed

lemma inv_reachable: "run pd env initial sched = Some s \<Longrightarrow> inv pd env s"
  by (rule inv_run [OF _ inv_initial])

lemma run_append:
  "run pd env s (xs @ ys) = (case run pd env s xs of None \<Rightarrow> None | Some s' \<Rightarrow> run pd env s' ys)"
  by (induction xs arbitrary: s) (auto split: option.splits)

lemma signal_stage:
  assumes "inv pd env s" and "ReceivesSignal \<in> set (trace s)"
  shows "\<exists>k. 0 < k \<and> k \<le> length (shutdown_sequence env) \<and>
           trace s = startup_events (flags s) @ take k (shutdown_sequence env) \<and>
           (exit_status s \<noteq> None \<longleftrightarrow> k = length (shutdown_sequence env)) \<and>
           (3 \<le> k \<longleftrightarrow> listener s = Closed)"
proof (cases "main_at s")
  case M_Serve
  show ?thesis
  proof (cases "handler_at s")
    case H_Log
    with M_Serve assms show ?thesis
      by (intro exI [of _ 1]) (auto simp: inv_def shutdown_sequence_def)
  next
    case H_Close
    with M_Serve assms show ?thesis
      by (intro exI [of _ 2]) (auto simp: inv_def shutdown_sequence_def)
  next
    case H_Done
    with M_Serve assms show ?thesis
      by (intro exI [of _ 3]) (auto simp: inv_def shutdown_sequence_def)
  qed (use M_Serve assms in \<open>auto simp: inv_def startup_events_def\<close>)
next
  case M_LogStopped
  with assms show ?thesis
    by (intro exI [of _ 4]) (auto simp: inv_def shutdown_sequence_def)
next
  case M_Sleep
  with assms show ?thesis
    by (intro exI [of _ 5]) (auto simp: inv_def shutdown_sequence_def)
next
  case M_Shutdown
  with assms show ?thesis
    by (intro exI [of _ 6]) (auto simp: inv_def shutdown_sequence_def)
next
  case (M_LogProblem e)
  with assms show ?thesis
    by (intro exI [of _ 7]) (auto simp: inv_def shutdown_sequence_def)
next
  case M_Return
  with assms show ?thesis
    by (intro exI [of _ "length (shutdown_sequence env) - 1"])
      (auto simp: inv_def shutdown_sequence_def butlast_append split: option.splits)
next
  case M_Done
  with assms show ?thesis
    by (intro exI [of _ "length (shutdown_sequence env)"])
      (auto simp: inv_def shutdown_sequence_def startup_events_def
        split: option.splits if_splits)
qed (use assms in \<open>auto simp: inv_def startup_events_def\<close>)

lemma signal_progress:
  assumes "inv pd env s" and "ReceivesSignal \<in> set (trace s)" and "exit_status s = None"
  shows "\<exists>a s'. step pd env s a = Some s'"
proof (cases "main_at s")
  case M_Serve
  show ?thesis
  proof (cases "handler_at s")
    case H_Log
    with assms show ?thesis
      by (intro exI [of _ Handler]) (simp add: step_def handler_step_def)
  next
    case H_Close
    with assms show ?thesis
      by (intro exI [of _ Handler]) (simp add: step_def handler_step_def)
  next
    case H_Done
    with M_Serve assms show ?thesis
      by (intro exI [of _ Main]) (simp add: step_def main_step_def inv_def)
  qed (use M_Serve assms in \<open>auto simp: inv_def startup_events_def\<close>)
next
  case M_Done
  with assms show ?thesis by (auto simp: inv_def)
qed (use assms in \<open>auto simp: inv_def startup_events_def step_def main_step_def
        intro!: exI [of _ Main]\<close>)

text \<open>
  Claim C2. In every run in which the goroutine has received SIGINT or SIGTERM, the
  events after the start-up are a non-empty prefix of \<open>shutdown_sequence\<close>: the listener
  is closed first, then \<^verbatim>\<open>Serve\<close> returns, \<^verbatim>\<open>main\<close> sleeps one second, calls the store's
  \<^verbatim>\<open>Shutdown\<close> and only after its return ends the process. The process cannot get stuck
  on the way: until it has exited some step is enabled, and it exits with status 0
  exactly when the whole sequence has happened.
\<close>

theorem graceful_shutdown_order:
  assumes "run pd env initial sched = Some s" and "ReceivesSignal \<in> set (trace s)"
  shows "(\<exists>k. 0 < k \<and> k \<le> length (shutdown_sequence env) \<and>
            trace s = startup_events (flags s) @ take k (shutdown_sequence env) \<and>
            (exit_status s \<noteq> None \<longleftrightarrow> k = length (shutdown_sequence env)) \<and>
            (3 \<le> k \<longleftrightarrow> listener s = Closed)) \<and>
         (exit_status s = None \<longrightarrow> (\<exists>a s'. step pd env s a = Some s')) \<and>
         (exit_status s \<noteq> None \<longrightarrow> exit_status s = Some 0)"
proof -
  have i: "inv pd env s" by (rule inv_reachable [OF assms(1)])
  have "exit_status s \<noteq> None \<longrightarrow> exit_status s = Some 0"
    using i assms(2)
    by (cases "main_at s")
      (auto simp: inv_def startup_events_def split: option.splits if_splits handler_pc.splits)
  with signal_stage [OF i assms(2)] signal_progress [OF i assms(2)]
  show ?thesis by blast
qed

lemma graceful_run:
  "\<exists>s. run no_durations quiet_environment initial graceful_schedule = Some s \<and>
       ReceivesSignal \<in> set (trace s) \<and> exit_status s = Some 0"
  by (simp add: graceful_schedule_def quiet_environment_def initial_def step_def main_step_def
      handler_step_def deliver_signal_def emit_def exit_with_def)

theorem graceful_shutdown_order_witness:
  "\<exists>s. run no_durations quiet_environment initial graceful_schedule = Some s \<and>
       ReceivesSignal \<in> set (trace s) \<and>
       trace s = startup_events (flags s) @ shutdown_sequence quiet_environment \<and>
       listener s = Closed \<and> exit_status s = Some 0"
proof -
  from graceful_run obtain s where
    r: "run no_durations quiet_environment initial graceful_schedule = Some s"
    and sig: "ReceivesSignal \<in> set (trace s)" and x: "exit_status s = Some 0"
    by blast
  from graceful_shutdown_order [OF r sig] x
  have "trace s = startup_events (flags s) @ shutdown_sequence quiet_environment"
    and "listener s = Closed"
    by (auto simp: shutdown_sequence_def quiet_environment_def)
  with r sig x show ?thesis by blast
qed

text \<open>
  Claim C6. Once the store's \<^verbatim>\<open>Shutdown\<close> has returned, with an error or without, at most
  two further statements of \<^verbatim>\<open>main\<close> end the process with status 0, none of them waiting
  for anything; an error is written to the log on the way.
\<close>

theorem shutdown_failure_does_not_block_exit:
  assumes "run pd env initial sched = Some s" and "ShutsDownStore r \<in> set (trace s)"
  shows "r = shutdown_error env \<and>
    (\<exists>n s'. n \<le> 2 \<and> run pd env s (replicate n Main) = Some s' \<and> exit_status s' = Some 0 \<and>
       (\<exists>pre. trace s' =
          pre @ ShutsDownStore r
            # (case r of
                 None \<Rightarrow> []
               | Some e \<Rightarrow> [Logs (''Problem shutting down metric storage: '' @ e)])
            @ [Exits 0]))"
proof -
  have i: "inv pd env s" by (rule inv_reachable [OF assms(1)])
  let ?tail = "\<lambda>r. ShutsDownStore r
            # (case r of
                 None \<Rightarrow> []
               | Some e \<Rightarrow> [Logs (''Problem shutting down metric storage: '' @ e)])
            @ [Exits 0]"
  have seq: "shutdown_sequence env = take 6 (shutdown_sequence env) @ ?tail (shutdown_error env)"
    by (simp add: shutdown_sequence_def)
  show ?thesis
  proof (cases "main_at s")
    case (M_LogProblem e)
    with i assms(2) have r: "r = shutdown_error env" and e: "shutdown_error env = Some e"
      and t: "trace s = startup_events (flags s) @ take 7 (shutdown_sequence env)"
      and x: "exit_status s = None"
      by (auto simp: inv_def shutdown_sequence_def startup_events_def)
    let ?s1 = "(emit [Logs (''Problem shutting down metric storage: '' @ e)] s)\<lparr>main_at := M_Return\<rparr>"
    let ?s2 = "exit_with 0 ?s1"
    have run2: "run pd env s (replicate (Suc (Suc 0)) Main) = Some ?s2"
      using M_LogProblem x by (simp add: step_def main_step_def emit_def exit_with_def)
    have tr: "trace ?s2 = (startup_events (flags s) @ take 6 (shutdown_sequence env)) @ ?tail r"
      using t r e by (simp add: emit_def exit_with_def shutdown_sequence_def)
    have "Suc (Suc 0) \<le> 2" by simp
    moreover note run2
    moreover have "exit_status ?s2 = Some 0" by (simp add: exit_with_def emit_def)
    moreover have "\<exists>pre. trace ?s2 = pre @ ?tail r" using tr by blast
    ultimately have "\<exists>n s'. n \<le> 2 \<and> run pd env s (replicate n Main) = Some s' \<and>
        exit_status s' = Some 0 \<and> (\<exists>pre. trace s' = pre @ ?tail r)"
      by blast
    with r show ?thesis by simp
  next
    case M_Return
    with i assms(2) have r: "r = shutdown_error env"
      and t: "trace s = startup_events (flags s) @ butlast (shutdown_sequence env)"
      and x: "exit_status s = None"
      by (auto simp: inv_def shutdown_sequence_def startup_events_def butlast_append
          split: option.splits)
    let ?s1 = "exit_with 0 s"
    have run1: "run pd env s (replicate (Suc 0) Main) = Some ?s1"
      using M_Return x by (simp add: step_def main_step_def)
    have tr: "trace ?s1 = (startup_events (flags s) @ take 6 (shutdown_sequence env)) @ ?tail r"
      using t r
      by (simp add: emit_def exit_with_def shutdown_sequence_def butlast_append
          split: option.splits)
    have "Suc 0 \<le> 2" by simp
    moreover note run1
    moreover have "exit_status ?s1 = Some 0" by (simp add: exit_with_def emit_def)
    moreover have "\<exists>pre. trace ?s1 = pre @ ?tail r" using tr by blast
    ultimately have "\<exists>n s'. n \<le> 2 \<and> run pd env s (replicate n Main) = Some s' \<and>
        exit_status s' = Some 0 \<and> (\<exists>pre. trace s' = pre @ ?tail r)"
      by blast
    with r show ?thesis by simp
  next
    case M_Done
    with i assms(2) have r: "r = shutdown_error env"
      and t: "trace s = startup_events (flags s) @ shutdown_sequence env"
      and x: "exit_status s = Some 0"
      by (auto simp: inv_def shutdown_sequence_def startup_events_def
          split: option.splits if_splits)
    have tr: "trace s = (startup_events (flags s) @ take 6 (shutdown_sequence env)) @ ?tail r"
      using t r seq by simp
    have run0: "run pd env s (replicate 0 Main) = Some s" by simp
    have "(0::nat) \<le> 2" by simp
    moreover note run0
    moreover note x
    moreover have "\<exists>pre. trace s = pre @ ?tail r" using tr by blast
    ultimately have "\<exists>n s'. n \<le> 2 \<and> run pd env s (replicate n Main) = Some s' \<and>
        exit_status s' = Some 0 \<and> (\<exists>pre. trace s' = pre @ ?tail r)"
      by blast
    with r show ?thesis by simp
  qed (use i assms(2) in \<open>auto simp: inv_def startup_events_def shutdown_sequence_def
          split: handler_pc.splits\<close>)
qed

lemma flush_run:
  "\<exists>s. run no_durations failing_flush_environment initial flush_schedule = Some s \<and>
       ShutsDownStore (Some ''disk full'') \<in> set (trace s) \<and> exit_status s = None"
  by (simp add: flush_schedule_def failing_flush_environment_def quiet_environment_def
      initial_def step_def main_step_def handler_step_def deliver_signal_def emit_def
      exit_with_def)

theorem shutdown_failure_does_not_block_exit_witness:
  "\<exists>s. run no_durations failing_flush_environment initial flush_schedule = Some s \<and>
       ShutsDownStore (Some ''disk full'') \<in> set (trace s) \<and> exit_status s = None \<and>
       (\<exists>n s'. n \<le> 2 \<and> run no_durations failing_flush_environment s (replicate n Main) = Some s' \<and>
          exit_status s' = Some 0 \<and>
          (\<exists>pre. trace s' =
             pre @ [ShutsDownStore (Some ''disk full''),
                    Logs ''Problem shutting down metric storage: disk full'',
                    Exits 0]))"
proof -
  from flush_run obtain s where
    r: "run no_durations failing_flush_environment initial flush_schedule = Some s"
    and sd: "ShutsDownStore (Some ''disk full'') \<in> set (trace s)" and x: "exit_status s = None"
    by blast
  from shutdown_failure_does_not_block_exit [OF r sd, THEN conjunct2]
  have "\<exists>n s'. n \<le> 2 \<and> run no_durations failing_flush_environment s (replicate n Main) = Some s' \<and>
          exit_status s' = Some 0 \<and>
          (\<exists>pre. trace s' =
             pre @ [ShutsDownStore (Some ''disk full''),
                    Logs ''Problem shutting down metric storage: disk full'',
                    Exits 0])"
    by simp
  with r sd x show ?thesis by blast
qed

text \<open>
  Claim C9. When \<^verbatim>\<open>net.Listen\<close> fails, no run ever calls the store's \<^verbatim>\<open>Shutdown\<close> or starts
  the goroutine: after the failed call the one statement left is \<^verbatim>\<open>log.Fatal\<close>, which
  writes the error and ends the process with status 1, and an ended process takes no
  step.
\<close>

theorem listen_failure_is_fatal:
  assumes "run pd env initial sched = Some s" and "listen_error env = Some e"
  shows "(\<forall>r. ShutsDownStore r \<notin> set (trace s)) \<and> StartsHandler \<notin> set (trace s) \<and>
    (\<forall>a r. Listens a r \<in> set (trace s) \<longrightarrow>
       r = Some e \<and>
       (\<exists>n s'. n \<le> 1 \<and> run pd env s (replicate n Main) = Some s' \<and>
          exit_status s' = Some 1 \<and>
          (\<exists>pre. trace s' = pre @ [Listens a (Some e), Logs e, Exits 1]) \<and>
          (\<forall>b. step pd env s' b = None)))"
proof -
  have i: "inv pd env s" by (rule inv_reachable [OF assms(1)])
  have no_shutdown: "\<forall>r. ShutsDownStore r \<notin> set (trace s)"
    using i assms(2)
    by (cases "main_at s")
      (auto simp: inv_def startup_events_def split: option.splits if_splits)
  have no_handler: "StartsHandler \<notin> set (trace s)"
    using i assms(2)
    by (cases "main_at s")
      (auto simp: inv_def startup_events_def split: option.splits if_splits)
  have fatal: "r = Some e \<and>
       (\<exists>n s'. n \<le> 1 \<and> run pd env s (replicate n Main) = Some s' \<and>
          exit_status s' = Some 1 \<and>
          (\<exists>pre. trace s' = pre @ [Listens a (Some e), Logs e, Exits 1]) \<and>
          (\<forall>b. step pd env s' b = None))"
    if l: "Listens a r \<in> set (trace s)" for a r
  proof (cases "main_at s")
    case (M_Fatal e')
    with i l assms(2) have r: "r = Some e" and e: "e' = e" and a: "a = addr (flags s)"
      and t: "trace s = take 2 (startup_events (flags s)) @ [Listens a (Some e)]"
      and x: "exit_status s = None"
      by (auto simp: inv_def startup_events_def)
    let ?s1 = "exit_with 1 (emit [Logs e] s)"
    have run1: "run pd env s (replicate (Suc 0) Main) = Some ?s1"
      using M_Fatal x e by (simp add: step_def main_step_def)
    have tr: "trace ?s1 = take 2 (startup_events (flags s)) @ [Listens a (Some e), Logs e, Exits 1]"
      using t by (simp add: emit_def exit_with_def)
    have st: "exit_status ?s1 = Some 1" by (simp add: exit_with_def emit_def)
    then have stuck: "\<forall>b. step pd env ?s1 b = None" by (simp add: step_def)
    have "Suc 0 \<le> 1" by simp
    moreover note run1 st
    moreover have "\<exists>pre. trace ?s1 = pre @ [Listens a (Some e), Logs e, Exits 1]"
      using tr by blast
    moreover note stuck
    ultimately have "\<exists>n s'. n \<le> 1 \<and> run pd env s (replicate n Main) = Some s' \<and>
          exit_status s' = Some 1 \<and>
          (\<exists>pre. trace s' = pre @ [Listens a (Some e), Logs e, Exits 1]) \<and>
          (\<forall>b. step pd env s' b = None)"
      by blast
    with r show ?thesis by simp
  next
    case M_Done
    with i l assms(2) have r: "r = Some e" and a: "a = addr (flags s)"
      and t: "trace s = take 2 (startup_events (flags s)) @ [Listens a (Some e), Logs e, Exits 1]"
      and x: "exit_status s = Some 1"
      by (auto simp: inv_def startup_events_def split: option.splits if_splits)
    then have stuck: "\<forall>b. step pd env s b = None" by (simp add: step_def)
    have run0: "run pd env s (replicate 0 Main) = Some s" by simp
    have "(0::nat) \<le> 1" by simp
    moreover note run0 x
    moreover have "\<exists>pre. trace s = pre @ [Listens a (Some e), Logs e, Exits 1]"
      using t by blast
    moreover note stuck
    ultimately have "\<exists>n s'. n \<le> 1 \<and> run pd env s (replicate n Main) = Some s' \<and>
          exit_status s' = Some 1 \<and>
          (\<exists>pre. trace s' = pre @ [Listens a (Some e), Logs e, Exits 1]) \<and>
          (\<forall>b. step pd env s' b = None)"
      by blast
    with r show ?thesis by simp
  qed (use i l assms(2) in \<open>auto simp: inv_def startup_events_def
          split: handler_pc.splits\<close>)
  from no_shutdown no_handler fatal show ?thesis by blast
qed

lemma busy_port_run:
  "\<exists>s. run no_durations busy_port_environment initial [Main, Main, Main, Main] = Some s \<and>
       Listens '':8080'' (Some ''address already in use'') \<in> set (trace s) \<and>
       exit_status s = None"
  by (simp add: busy_port_environment_def quiet_environment_def
      initial_def step_def main_step_def emit_def exit_with_def CommandLine_def
      flag_String_def flag_Duration_def addr_def string_of_def Lookup_def
      persistenceFile_def persistenceDuration_def duration_of_def)

theorem listen_failure_is_fatal_witness:
  "\<exists>s. run no_durations busy_port_environment initial [Main, Main, Main, Main] = Some s \<and>
       listen_error busy_port_environment = Some ''address already in use'' \<and>
       Listens '':8080'' (Some ''address already in use'') \<in> set (trace s) \<and>
       (\<forall>r. ShutsDownStore r \<notin> set (trace s)) \<and>
       (\<exists>n s'. n \<le> 1 \<and> run no_durations busy_port_environment s (replicate n Main) = Some s' \<and>
          exit_status s' = Some 1 \<and>
          (\<exists>pre. trace s' = pre @ [Listens '':8080'' (Some ''address already in use''),
                                   Logs ''address already in use'', Exits 1]) \<and>
          (\<forall>b. step no_durations busy_port_environment s' b = None))"
proof -
  from busy_port_run obtain s where
    r: "run no_durations busy_port_environment initial [Main, Main, Main, Main] = Some s"
    and l: "Listens '':8080'' (Some ''address already in use'') \<in> set (trace s)"
    by blast
  have e: "listen_error busy_port_environment = Some ''address already in use''"
    by (simp add: busy_port_environment_def)
  from listen_failure_is_fatal [OF r e] l r e show ?thesis by blast
qed

section \<open>The configuration\<close>

lemma CommandLine_values: "CommandLine = with_values '':8080'' '''' (5 * Minute)"
  by (simp add: CommandLine_def with_values_def flag_String_def flag_Duration_def)

lemma with_values_read:
  "addr (with_values a f d) = a"
  "persistenceFile (with_values a f d) = f"
  "persistenceDuration (with_values a f d) = d"
  by (simp_all add: with_values_def addr_def persistenceFile_def persistenceDuration_def
      string_of_def duration_of_def Lookup_def)

lemma flag_Set_with_values:
  "flag_Set pd (with_values a f d) n v =
     (if n = ''addr'' then Inr (with_values v f d)
      else if n = ''persistence.file'' then Inr (with_values a v d)
      else if n = ''persistence.duration'' then
        (case pd v of None \<Rightarrow> Inl (InvalidValue v n) | Some d' \<Rightarrow> Inr (with_values a f d'))
      else Inl (NotDefined n))"
  by (simp add: flag_Set_def with_values_def Lookup_def split: option.splits)

lemma flag_Parse_accepts:
  "(\<exists>fs. flag_Parse pd (with_values a f d) opts = Inr fs) \<longleftrightarrow>
     list_all (\<lambda>(n, v). n = ''addr'' \<or> n = ''persistence.file'' \<or>
                 (n = ''persistence.duration'' \<and> pd v \<noteq> None)) opts"
proof (induction opts arbitrary: a f d)
  case Nil
  then show ?case by simp
next
  case (Cons o1 opts)
  obtain n v where o1: "o1 = (n, v)" by (cases o1) auto
  show ?case
    unfolding o1 using Cons.IH
    by (auto simp: flag_Set_with_values split: option.splits)
qed

lemma flag_Parse_values:
  "flag_Parse pd (with_values a f d) opts = Inr fs \<Longrightarrow>
     fs = with_values
            (last (a # map snd (filter (\<lambda>p. fst p = ''addr'') opts)))
            (last (f # map snd (filter (\<lambda>p. fst p = ''persistence.file'') opts)))
            (the (last (Some d # map (\<lambda>p. pd (snd p))
                                   (filter (\<lambda>p. fst p = ''persistence.duration'') opts))))"
proof (induction opts arbitrary: a f d)
  case Nil
  then show ?case by simp
next
  case (Cons o1 opts)
  obtain n v where o1: "o1 = (n, v)" by (cases o1) auto
  show ?case
    using Cons.prems Cons.IH unfolding o1
    by (auto simp: flag_Set_with_values split: option.splits if_splits)
qed

lemma listens_with_addr:
  assumes "inv pd env s" and "Listens a r \<in> set (trace s)"
  shows "a = addr (flags s) \<and> parsed pd env s"
  using assms
  by (cases "main_at s")
    (auto simp: inv_def startup_events_def shutdown_sequence_def butlast_append
      split: option.splits if_splits handler_pc.splits)

lemma creates_store_with_flags:
  assumes "inv pd env s" and "CreatesStore f d \<in> set (trace s)"
  shows "f = persistenceFile (flags s) \<and> d = persistenceDuration (flags s) \<and> parsed pd env s"
  using assms
  by (cases "main_at s")
    (auto simp: inv_def startup_events_def shutdown_sequence_def butlast_append
      split: option.splits if_splits handler_pc.splits)

lemma last_not_None: "None \<notin> set xs \<Longrightarrow> last (Some d # xs) \<noteq> None"
proof (induction xs arbitrary: d)
  case Nil
  then show ?case by simp
next
  case (Cons x xs)
  then obtain y where "x = Some y" by (cases x) auto
  with Cons show ?case by simp
qed

text \<open>
  Claim C7. The flag set of main.go has exactly the flags \<^verbatim>\<open>addr\<close>, \<^verbatim>\<open>persistence.file\<close> and
  \<^verbatim>\<open>persistence.duration\<close>, with the defaults \<^verbatim>\<open>:8080\<close>, the empty path and five minutes.
  A command line is accepted exactly when every option names one of the three (and a
  duration parses), and the last value given for a flag is the one in force. The
  process listens on \<^verbatim>\<open>addr\<close> and creates its store from the other two. A store created
  with the empty path has no snapshot file and starts empty; with any other path it
  persists to that file at the given interval.
\<close>

theorem configuration_options:
  "map Name CommandLine = [''addr'', ''persistence.file'', ''persistence.duration''] \<and>
   addr CommandLine = '':8080'' \<and> persistenceFile CommandLine = '''' \<and>
   persistenceDuration CommandLine = 300000000000 \<and>
   ((\<exists>fs. flag_Parse pd CommandLine opts = Inr fs) \<longleftrightarrow>
      list_all (\<lambda>(n, v). n = ''addr'' \<or> n = ''persistence.file'' \<or>
                  (n = ''persistence.duration'' \<and> pd v \<noteq> None)) opts) \<and>
   (flag_Parse pd CommandLine opts = Inr fs \<longrightarrow>
      map Name fs = map Name CommandLine \<and>
      addr fs = last ('':8080'' # map snd (filter (\<lambda>p. fst p = ''addr'') opts)) \<and>
      persistenceFile fs =
        last ('''' # map snd (filter (\<lambda>p. fst p = ''persistence.file'') opts)) \<and>
      Some (persistenceDuration fs) =
        last (Some 300000000000
              # map (\<lambda>p. pd (snd p)) (filter (\<lambda>p. fst p = ''persistence.duration'') opts))) \<and>
   (run pd env initial sched = Some s \<longrightarrow>
      (\<forall>a r. Listens a r \<in> set (trace s) \<longrightarrow>
         a = addr (flags s) \<and> flag_Parse pd CommandLine (args env) = Inr (flags s)) \<and>
      (\<forall>f d. CreatesStore f d \<in> set (trace s) \<longrightarrow>
         f = persistenceFile (flags s) \<and> d = persistenceDuration (flags s) \<and>
         flag_Parse pd CommandLine (args env) = Inr (flags s))) \<and>
   persistence (NewDiskMetricStore load (persistenceFile fs) (persistenceDuration fs)) =
     (if persistenceFile fs = '''' then None
      else Some (persistenceFile fs, persistenceDuration fs)) \<and>
   (persistenceFile fs = '''' \<longrightarrow>
      groups (NewDiskMetricStore load (persistenceFile fs) (persistenceDuration fs)) = Map.empty)"
proof -
  have names: "map Name CommandLine = [''addr'', ''persistence.file'', ''persistence.duration'']"
    by (simp add: CommandLine_values with_values_def)
  have defaults: "addr CommandLine = '':8080''" "persistenceFile CommandLine = ''''"
    "persistenceDuration CommandLine = 300000000000"
    by (simp_all add: CommandLine_values with_values_read Minute_def Second_def)
  have accepts: "(\<exists>fs. flag_Parse pd CommandLine opts = Inr fs) \<longleftrightarrow>
      list_all (\<lambda>(n, v). n = ''addr'' \<or> n = ''persistence.file'' \<or>
                  (n = ''persistence.duration'' \<and> pd v \<noteq> None)) opts"
    unfolding CommandLine_values by (rule flag_Parse_accepts)
  have vals: "flag_Parse pd CommandLine opts = Inr fs \<longrightarrow>
      map Name fs = map Name CommandLine \<and>
      addr fs = last ('':8080'' # map snd (filter (\<lambda>p. fst p = ''addr'') opts)) \<and>
      persistenceFile fs =
        last ('''' # map snd (filter (\<lambda>p. fst p = ''persistence.file'') opts)) \<and>
      Some (persistenceDuration fs) =
        last (Some 300000000000
              # map (\<lambda>p. pd (snd p)) (filter (\<lambda>p. fst p = ''persistence.duration'') opts))"
  proof
    assume p: "flag_Parse pd CommandLine opts = Inr fs"
    let ?ds = "map (\<lambda>p. pd (snd p)) (filter (\<lambda>p. fst p = ''persistence.duration'') opts)"
    have "list_all (\<lambda>(n, v). n = ''addr'' \<or> n = ''persistence.file'' \<or>
                  (n = ''persistence.duration'' \<and> pd v \<noteq> None)) opts"
      using accepts p by blast
    then have "None \<notin> set ?ds"
      by (auto simp: list_all_iff)
    then have "last (Some (5 * Minute) # ?ds) \<noteq> None"
      by (rule last_not_None)
    then obtain d where d: "last (Some (5 * Minute) # ?ds) = Some d" by blast
    have fs: "fs = with_values
            (last ('':8080'' # map snd (filter (\<lambda>p. fst p = ''addr'') opts)))
            (last ('''' # map snd (filter (\<lambda>p. fst p = ''persistence.file'') opts)))
            d"
      using flag_Parse_values [OF p [unfolded CommandLine_values]] d by simp
    have five: "(300000000000 :: int) = 5 * Minute" by (simp add: Minute_def Second_def)
    show "map Name fs = map Name CommandLine \<and>
      addr fs = last ('':8080'' # map snd (filter (\<lambda>p. fst p = ''addr'') opts)) \<and>
      persistenceFile fs =
        last ('''' # map snd (filter (\<lambda>p. fst p = ''persistence.file'') opts)) \<and>
      Some (persistenceDuration fs) = last (Some 300000000000 # ?ds)"
      unfolding five d unfolding fs names
      by (simp add: with_values_read) (simp add: with_values_def)
  qed
  have runs: "run pd env initial sched = Some s \<longrightarrow>
      (\<forall>a r. Listens a r \<in> set (trace s) \<longrightarrow>
         a = addr (flags s) \<and> flag_Parse pd CommandLine (args env) = Inr (flags s)) \<and>
      (\<forall>f d. CreatesStore f d \<in> set (trace s) \<longrightarrow>
         f = persistenceFile (flags s) \<and> d = persistenceDuration (flags s) \<and>
         flag_Parse pd CommandLine (args env) = Inr (flags s))"
  proof
    assume r: "run pd env initial sched = Some s"
    show "(\<forall>a r. Listens a r \<in> set (trace s) \<longrightarrow>
         a = addr (flags s) \<and> flag_Parse pd CommandLine (args env) = Inr (flags s)) \<and>
      (\<forall>f d. CreatesStore f d \<in> set (trace s) \<longrightarrow>
         f = persistenceFile (flags s) \<and> d = persistenceDuration (flags s) \<and>
         flag_Parse pd CommandLine (args env) = Inr (flags s))"
      using listens_with_addr [OF inv_reachable [OF r]]
        creates_store_with_flags [OF inv_reachable [OF r]]
      by (auto simp: parsed_def)
  qed
  have store: "persistence (NewDiskMetricStore load (persistenceFile fs) (persistenceDuration fs)) =
     (if persistenceFile fs = '''' then None
      else Some (persistenceFile fs, persistenceDuration fs))"
    "persistenceFile fs = '''' \<longrightarrow>
      groups (NewDiskMetricStore load (persistenceFile fs) (persistenceDuration fs)) = Map.empty"
    by (simp_all add: NewDiskMetricStore_def)
  show ?thesis
    by (intro conjI) (rule names defaults accepts vals runs store)+
qed

lemma default_start:
  "\<exists>s. run no_durations quiet_environment initial [Main, Main, Main, Main] = Some s \<and>
       Listens '':8080'' None \<in> set (trace s) \<and>
       CreatesStore '''' 300000000000 \<in> set (trace s)"
  by (simp add: quiet_environment_def initial_def step_def main_step_def emit_def
      CommandLine_values with_values_read Minute_def Second_def)

theorem configuration_options_witness:
  "\<exists>fs s.
     flag_Parse no_durations CommandLine [(''addr'', '':9091''), (''addr'', '':9092'')] = Inr fs \<and>
     addr fs = '':9092'' \<and> persistenceFile fs = '''' \<and>
     persistenceDuration fs = 300000000000 \<and>
     persistence (NewDiskMetricStore (\<lambda>f. (None :: (GroupingKey \<rightharpoonup> int MetricGroup) option))
        (persistenceFile fs) (persistenceDuration fs)) = None \<and>
     groups (NewDiskMetricStore (\<lambda>f. (None :: (GroupingKey \<rightharpoonup> int MetricGroup) option))
        (persistenceFile fs) (persistenceDuration fs)) = Map.empty \<and>
     run no_durations quiet_environment initial [Main, Main, Main, Main] = Some s \<and>
     Listens '':8080'' None \<in> set (trace s) \<and>
     CreatesStore '''' 300000000000 \<in> set (trace s) \<and>
     addr (flags s) = '':8080'' \<and> persistenceFile (flags s) = ''''"
proof -
  let ?opts = "[(''addr'', '':9091''), (''addr'', '':9092'')]"
  from default_start obtain s where
    r: "run no_durations quiet_environment initial [Main, Main, Main, Main] = Some s"
    and l: "Listens '':8080'' None \<in> set (trace s)"
    and c: "CreatesStore '''' 300000000000 \<in> set (trace s)"
    by blast
  have "\<exists>fs. flag_Parse no_durations CommandLine ?opts = Inr fs"
    using configuration_options [where pd = no_durations and opts = ?opts and fs = "[]"
        and env = quiet_environment and sched = "[]" and s = initial
        and load = "\<lambda>f. (None :: (GroupingKey \<rightharpoonup> int MetricGroup) option)"]
    by simp
  then obtain fs where p: "flag_Parse no_durations CommandLine ?opts = Inr fs" by blast
  from configuration_options [where pd = no_durations and opts = ?opts and fs = fs
        and env = quiet_environment and sched = "[Main, Main, Main, Main]" and s = s
        and load = "\<lambda>f. (None :: (GroupingKey \<rightharpoonup> int MetricGroup) option)"] p r l c
  show ?thesis
    by (intro exI [of _ fs] exI [of _ s]) auto
qed

section \<open>Replace and delete on the group table\<close>

text \<open>
  Claim C1. An accepted push of \<open>B\<close> to a key that already holds a group replaces the
  group wholly: a snapshot taken afterwards holds for that key the group whose families
  are exactly \<open>B\<close>, stamped with the time of this push, and no family of the previous
  group that is not in \<open>B\<close> is left. The groups of all other keys are as before.
\<close>

theorem push_replaces_group:
  assumes "GetAllGroups s1 K = Some old" and "Push t K B s1 = Inr s2"
  shows "GetAllGroups s2 K = Some \<lparr>families = B, lastUpdate = t\<rparr> \<and>
    families_for K (GetAllGroups s2) = B \<and>
    (\<forall>f \<in> set (families old). f \<notin> set B \<longrightarrow> f \<notin> set (families_for K (GetAllGroups s2))) \<and>
    (\<forall>K'. K' \<noteq> K \<longrightarrow> GetAllGroups s2 K' = GetAllGroups s1 K')"
proof -
  from assms(2) have s2: "groups s2 = (groups s1)(K \<mapsto> \<lparr>families = B, lastUpdate = t\<rparr>)"
    by (auto simp: Push_def split: if_splits)
  show ?thesis
    by (simp add: families_for_def GetAllGroups_def s2)
qed

theorem push_replaces_group_witness:
  "\<exists>s1 s2.
     Push 10 [(''job'', ''a'')] [example_family ''old''] empty_store = Inr s1 \<and>
     GetAllGroups s1 [(''job'', ''a'')] =
       Some \<lparr>families = [example_family ''old''], lastUpdate = 10\<rparr> \<and>
     Push 20 [(''job'', ''a'')] [example_family ''new''] s1 = Inr s2 \<and>
     GetAllGroups s2 [(''job'', ''a'')] =
       Some \<lparr>families = [example_family ''new''], lastUpdate = 20\<rparr> \<and>
     families_for [(''job'', ''a'')] (GetAllGroups s2) = [example_family ''new''] \<and>
     example_family ''old'' \<notin> set (families_for [(''job'', ''a'')] (GetAllGroups s2))"
proof -
  have ok: "payload_ok [(''job'', ''a'')] [example_family n]" for n
    by (simp add: payload_ok_def family_ok_def example_family_def)
  obtain s1 where p1: "Push 10 [(''job'', ''a'')] [example_family ''old''] empty_store = Inr s1"
    using ok by (simp add: Push_def)
  then have g1: "GetAllGroups s1 [(''job'', ''a'')] =
       Some \<lparr>families = [example_family ''old''], lastUpdate = 10\<rparr>"
    by (auto simp: Push_def GetAllGroups_def split: if_splits)
  obtain s2 where p2: "Push 20 [(''job'', ''a'')] [example_family ''new''] s1 = Inr s2"
    using ok by (simp add: Push_def)
  have differ: "example_family ''old'' \<notin> set [example_family ''new'']"
    by (simp add: example_family_def)
  from push_replaces_group [OF g1 p2] differ
  have "GetAllGroups s2 [(''job'', ''a'')] =
       Some \<lparr>families = [example_family ''new''], lastUpdate = 20\<rparr> \<and>
     families_for [(''job'', ''a'')] (GetAllGroups s2) = [example_family ''new''] \<and>
     example_family ''old'' \<notin> set (families_for [(''job'', ''a'')] (GetAllGroups s2))"
    by simp
  with p1 g1 p2 show ?thesis by blast
qed

text \<open>
  Claim C3. \<^verbatim>\<open>Delete\<close> never fails, whether or not the key has a group; afterwards the key
  has none, every other key has the group it had, a delete of a key without a group
  changes nothing, and a second delete of the same key succeeds and changes nothing.
\<close>

theorem delete_always_succeeds:
  "\<exists>s'. Delete K s = Inr s' \<and> groups s' K = None \<and>
     (\<forall>K'. K' \<noteq> K \<longrightarrow> groups s' K' = groups s K') \<and>
     (groups s K = None \<longrightarrow> s' = s) \<and>
     Delete K s' = Inr s'"
  by (cases "groups s K") (auto simp: Delete_def)

theorem delete_always_succeeds_witness:
  "\<exists>s s'. Push 10 [(''job'', ''a'')] [example_family ''old''] empty_store = Inr s \<and>
     groups s [(''job'', ''a'')] \<noteq> None \<and>
     Delete [(''job'', ''a'')] s = Inr s' \<and> groups s' [(''job'', ''a'')] = None \<and>
     Delete [(''job'', ''a'')] s' = Inr s' \<and>
     Delete [(''job'', ''b'')] s = Inr s"
proof -
  have ok: "payload_ok [(''job'', ''a'')] [example_family ''old'']"
    by (simp add: payload_ok_def family_ok_def example_family_def)
  obtain s where p: "Push 10 [(''job'', ''a'')] [example_family ''old''] empty_store = Inr s"
    using ok by (simp add: Push_def)
  then have none: "groups s [(''job'', ''b'')] = None" and some: "groups s [(''job'', ''a'')] \<noteq> None"
    by (auto simp: Push_def empty_store_def split: if_splits)
  from delete_always_succeeds [of "[(''job'', ''a'')]" s]
    delete_always_succeeds [of "[(''job'', ''b'')]" s] none some p
  show ?thesis by auto
qed

end
